theory Spec2Isabelle
  imports Main "HOL-Library.Multiset" "HOL-Library.Sublist"
begin

section \<open>Data model (lib/api)\<close>

text \<open>
  \<^verbatim>\<open>TaskStatus\<close> is the legacy four-valued status of a task; \<^verbatim>\<open>ProjectStatus\<close> is a board
  column; \<^verbatim>\<open>Task\<close> is a card. An optional, nullable string field such as \<^verbatim>\<open>statusId\<close> is a
  \<open>string option\<close> (\<open>None\<close> for \<^verbatim>\<open>undefined\<close> and \<^verbatim>\<open>null\<close>). The fields of a task that the board
  never reads (description, priority, assignee, dates, hours) are left out; a spread
  \<^verbatim>\<open>{ ...task, statusId }\<close> is a record update of \<open>t_statusId\<close>.
\<close>

datatype TaskStatus = TODO | IN_PROGRESS | IN_REVIEW | DONE

record ProjectStatus =
  ps_id :: string
  ps_projectId :: string
  ps_name :: string
  ps_slug :: string
  ps_color :: string
  ps_position :: int
  ps_isDone :: int
  ps_createdAt :: string

record Task =
  t_id :: string
  t_title :: string
  t_status :: TaskStatus
  t_statusId :: "string option"
  t_projectId :: string

section \<open>JavaScript helpers\<close>

text \<open>
  A string-or-null value is truthy when it is a non-empty string. \<^verbatim>\<open>a || b\<close> is \<open>js_or a b\<close>.
\<close>

fun truthy :: "string option \<Rightarrow> bool" where
  "truthy None = False"
| "truthy (Some s) = (s \<noteq> [])"

definition js_or :: "string option \<Rightarrow> string option \<Rightarrow> string option" where
  "js_or a b = (if truthy a then a else b)"

text \<open>\<^verbatim>\<open>xs[0]\<close>, which is \<^verbatim>\<open>undefined\<close> on an empty array.\<close>

definition first :: "'a list \<Rightarrow> 'a option" where
  "first xs = (case xs of [] \<Rightarrow> None | x # _ \<Rightarrow> Some x)"

text \<open>\<^verbatim>\<open>Array.prototype.findIndex\<close>: the first index whose element satisfies the predicate, or -1.\<close>

fun findIndex :: "('a \<Rightarrow> bool) \<Rightarrow> 'a list \<Rightarrow> int" where
  "findIndex P [] = - 1"
| "findIndex P (x # xs) =
     (if P x then 0 else (let i = findIndex P xs in if i = - 1 then - 1 else i + 1))"

text \<open>\<^verbatim>\<open>s.startsWith(p)\<close>, and \<^verbatim>\<open>s.replace(p, "")\<close> for a string that starts with \<^verbatim>\<open>p\<close>
  (the first occurrence of \<^verbatim>\<open>p\<close> is then the prefix itself).\<close>

definition startsWith :: "string \<Rightarrow> string \<Rightarrow> bool" where
  "startsWith s p = (take (length p) s = p)"

definition stripPrefix :: "string \<Rightarrow> string \<Rightarrow> string" where
  "stripPrefix p s = drop (length p) s"

section \<open>The task board (components/task-board)\<close>

definition DEFAULT_STATUSES :: "ProjectStatus list" where
  "DEFAULT_STATUSES =
    [\<lparr>ps_id = ''todo'', ps_projectId = '''', ps_name = ''TODO'', ps_slug = ''todo'',
      ps_color = ''#6B7280'', ps_position = 0, ps_isDone = 0, ps_createdAt = ''''\<rparr>,
     \<lparr>ps_id = ''in_progress'', ps_projectId = '''',
      ps_name = [CHR 0xE9, CHR 0x80, CHR 0xB2, CHR 0xE8, CHR 0xA1, CHR 0x8C, CHR 0xE4, CHR 0xB8, CHR 0xAD],
      ps_slug = ''in_progress'', ps_color = ''#3B82F6'', ps_position = 1, ps_isDone = 0,
      ps_createdAt = ''''\<rparr>,
     \<lparr>ps_id = ''in_review'', ps_projectId = '''',
      ps_name = [CHR 0xE3, CHR 0x83, CHR 0xAC, CHR 0xE3, CHR 0x83, CHR 0x93, CHR 0xE3, CHR 0x83,
                 CHR 0xA5, CHR 0xE3, CHR 0x83, CHR 0xBC, CHR 0xE4, CHR 0xB8, CHR 0xAD],
      ps_slug = ''in_review'', ps_color = ''#F59E0B'', ps_position = 2, ps_isDone = 0,
      ps_createdAt = ''''\<rparr>,
     \<lparr>ps_id = ''done'', ps_projectId = '''',
      ps_name = [CHR 0xE5, CHR 0xAE, CHR 0x8C, CHR 0xE4, CHR 0xBA, CHR 0x86],
      ps_slug = ''done'', ps_color = ''#10B981'', ps_position = 3, ps_isDone = 1,
      ps_createdAt = ''''\<rparr>]"

fun STATUS_SLUG_MAP :: "TaskStatus \<Rightarrow> string" where
  "STATUS_SLUG_MAP TODO = ''todo''"
| "STATUS_SLUG_MAP IN_PROGRESS = ''in_progress''"
| "STATUS_SLUG_MAP IN_REVIEW = ''in_review''"
| "STATUS_SLUG_MAP DONE = ''done''"

subsection \<open>Grouping of tasks by column: \<^verbatim>\<open>tasksByStatusId\<close>\<close>

text \<open>
  The result is a plain JavaScript object, \<^verbatim>\<open>const result: Record<string, Task[]> = {}\<close>. Reading
  \<^verbatim>\<open>result[k]\<close> finds the own property \<open>k\<close>, else a property of the prototype chain, so the
  model keeps both: \<open>ro_own\<close> holds the own properties (all of them arrays of tasks), \<open>ro_proto\<close>
  is \<open>None\<close> while the prototype is \<^verbatim>\<open>Object.prototype\<close>, and \<open>Some arr\<close> once the assignment
  \<^verbatim>\<open>result["__proto__"] = []\<close> (a column with that identifier) has replaced the prototype by an
  array, behind which \<^verbatim>\<open>Array.prototype\<close> and \<^verbatim>\<open>Object.prototype\<close> follow.

  \<open>objectPrototypeNames\<close> and \<open>arrayPrototypeNames\<close> are the string-keyed properties of the two
  built-in prototypes (ECMAScript 2023 with Annex B; an older engine lacks some of the array
  methods). All of them are functions, except \<^verbatim>\<open>__proto__\<close>, an accessor that yields the
  prototype, and \<^verbatim>\<open>length\<close>, which the array itself has. \<open>decimal\<close> writes an array index as
  the property name it has.
\<close>

datatype JSError = TypeError

record ResultObject =
  ro_own :: "string \<rightharpoonup> Task list"
  ro_proto :: "Task list option"

definition objectPrototypeNames :: "string list" where
  "objectPrototypeNames =
     [''constructor'', ''__defineGetter__'', ''__defineSetter__'', ''hasOwnProperty'',
      ''__lookupGetter__'', ''__lookupSetter__'', ''isPrototypeOf'', ''propertyIsEnumerable'',
      ''toString'', ''valueOf'', ''__proto__'', ''toLocaleString'']"

definition arrayPrototypeNames :: "string list" where
  "arrayPrototypeNames =
     [''length'', ''constructor'', ''at'', ''concat'', ''copyWithin'', ''fill'', ''find'',
      ''findIndex'', ''findLast'', ''findLastIndex'', ''lastIndexOf'', ''pop'', ''push'',
      ''reverse'', ''shift'', ''unshift'', ''slice'', ''sort'', ''splice'', ''includes'',
      ''indexOf'', ''join'', ''keys'', ''entries'', ''values'', ''forEach'', ''filter'', ''flat'',
      ''flatMap'', ''map'', ''every'', ''some'', ''reduce'', ''reduceRight'', ''toLocaleString'',
      ''toString'', ''toReversed'', ''toSorted'', ''toSpliced'', ''with'']"

function decimal :: "nat \<Rightarrow> string" where
  "decimal n =
     (if n < 10 then [char_of (48 + n)] else decimal (n div 10) @ [char_of (48 + n mod 10)])"
  by pat_completeness auto
termination
  by (relation "measure id") auto

declare decimal.simps [simp del]

definition isArrayIndex :: "string \<Rightarrow> nat \<Rightarrow> bool" where
  "isArrayIndex k n = (k \<in> set (map decimal [0..<n]))"

text \<open>
  What \<^verbatim>\<open>result[k]\<close> is: \<^verbatim>\<open>undefined\<close>; the number 0 (the length of an empty prototype array);
  one of the arrays of the object, own or prototype, with its elements; or another truthy
  value that is not an array (a function, \<^verbatim>\<open>Object.prototype\<close>, a positive length, a task
  stored in the prototype array).
\<close>

datatype Slot = Undefined | Zero | NotArray | OwnArray string "Task list" | ProtoArray "Task list"

definition getSlot :: "ResultObject \<Rightarrow> string \<Rightarrow> Slot" where
  "getSlot result k =
     (case ro_own result k of
        Some ts \<Rightarrow> OwnArray k ts
      | None \<Rightarrow>
          (case ro_proto result of
             None \<Rightarrow> if k \<in> set objectPrototypeNames then NotArray else Undefined
           | Some arr \<Rightarrow>
               if k = ''__proto__'' then ProtoArray arr
               else if k = ''length'' then (if arr = [] then Zero else NotArray)
               else if isArrayIndex k (length arr) then NotArray
               else if k \<in> set arrayPrototypeNames \<or> k \<in> set objectPrototypeNames then NotArray
               else Undefined))"

fun slotTruthy :: "Slot \<Rightarrow> bool" where
  "slotTruthy Undefined = False"
| "slotTruthy Zero = False"
| "slotTruthy _ = True"

text \<open>
  The assignment \<^verbatim>\<open>result[k] = []\<close>: an own property, except for \<^verbatim>\<open>__proto__\<close>, whose setter makes
  the new array the prototype. \<open>initResult\<close> is the first loop.
\<close>

definition setEmpty :: "string \<Rightarrow> ResultObject \<Rightarrow> ResultObject" where
  "setEmpty k result =
     (if k = ''__proto__'' then result\<lparr>ro_proto := Some []\<rparr>
      else result\<lparr>ro_own := (ro_own result)(k \<mapsto> [])\<rparr>)"

definition initResult :: "ProjectStatus list \<Rightarrow> ResultObject" where
  "initResult cols =
     fold (\<lambda>status result. setEmpty (ps_id status) result) cols
       \<lparr>ro_own = Map.empty, ro_proto = None\<rparr>"

text \<open>
  \<^verbatim>\<open>v.push(task)\<close> for a value \<open>v\<close> read from the object: an array gets the task appended; any
  other value has no \<^verbatim>\<open>push\<close>, and the call throws a TypeError.
\<close>

fun pushTask :: "Slot \<Rightarrow> Task \<Rightarrow> ResultObject \<Rightarrow> JSError + ResultObject" where
  "pushTask (OwnArray k ts) task result = Inr (result\<lparr>ro_own := (ro_own result)(k \<mapsto> ts @ [task])\<rparr>)"
| "pushTask (ProtoArray arr) task result = Inr (result\<lparr>ro_proto := Some (arr @ [task])\<rparr>)"
| "pushTask _ task result = Inl TypeError"

text \<open>The legacy lookup \<^verbatim>\<open>columns.find((s) => s.slug === STATUS_SLUG_MAP[task.status])?.id\<close>.\<close>

definition matchingStatusId :: "ProjectStatus list \<Rightarrow> Task \<Rightarrow> string option" where
  "matchingStatusId cols task =
     map_option ps_id (List.find (\<lambda>s. ps_slug s = STATUS_SLUG_MAP (t_status task)) cols)"

definition groupStatusId :: "ProjectStatus list \<Rightarrow> Task \<Rightarrow> string option" where
  "groupStatusId cols task =
     (if \<not> truthy (t_statusId task)
      then js_or (matchingStatusId cols task) (map_option ps_id (first cols))
      else t_statusId task)"

text \<open>
  The body of the second loop. \<^verbatim>\<open>result[statusId]!.push(task)\<close> runs when the value read is
  truthy; otherwise \<^verbatim>\<open>result[columns[0].id]?.push(task)\<close>, which does nothing only when the value
  is \<^verbatim>\<open>undefined\<close>. An exception ends the loop and the render: \<open>groupTasks\<close> stops at the first
  error.
\<close>

definition groupTask :: "ProjectStatus list \<Rightarrow> Task \<Rightarrow> ResultObject \<Rightarrow> JSError + ResultObject" where
  "groupTask cols task result =
     (let statusId = groupStatusId cols task in
      if truthy statusId \<and> slotTruthy (getSlot result (the statusId))
      then pushTask (getSlot result (the statusId)) task result
      else (case first cols of
              None \<Rightarrow> Inr result
            | Some c \<Rightarrow>
                (case getSlot result (ps_id c) of
                   Undefined \<Rightarrow> Inr result
                 | v \<Rightarrow> pushTask v task result)))"

fun groupTasks :: "ProjectStatus list \<Rightarrow> Task list \<Rightarrow> ResultObject \<Rightarrow> JSError + ResultObject" where
  "groupTasks cols [] result = Inr result"
| "groupTasks cols (task # tasks) result =
     (case groupTask cols task result of
        Inl e \<Rightarrow> Inl e
      | Inr result' \<Rightarrow> groupTasks cols tasks result')"

definition tasksByStatusId :: "ProjectStatus list \<Rightarrow> Task list \<Rightarrow> JSError + ResultObject" where
  "tasksByStatusId cols tasks = groupTasks cols tasks (initResult cols)"

text \<open>
  What a column shows: \<^verbatim>\<open>tasksByStatusId[status.id] || []\<close>. The board evaluates this at the
  identifiers of its columns, where the value is one of the arrays (lemma
  \<open>column_slot_is_array\<close> below).
\<close>

definition columnTasks :: "ResultObject \<Rightarrow> string \<Rightarrow> Task list" where
  "columnTasks result k =
     (case getSlot result k of OwnArray j ts \<Rightarrow> ts | ProtoArray arr \<Rightarrow> arr | _ \<Rightarrow> [])"

text \<open>
  The effective column of a task, by the chain of the grouping: the column identifier of the
  task when it names a column, else the column found by the legacy slug, else the first column.
  It is the key of the bucket that the loop body pushes the task to whenever the lookup does not
  meet an inherited property (lemma \<open>groupTask_plain\<close> below).
\<close>

definition effectiveColumn :: "ProjectStatus list \<Rightarrow> Task \<Rightarrow> string" where
  "effectiveColumn cols task =
     (let statusId = groupStatusId cols task in
      if truthy statusId \<and> the statusId \<in> ps_id ` set cols then the statusId
      else ps_id (hd cols))"

text \<open>
  Identifiers that keep the lookups away from inherited properties: no column is called
  \<^verbatim>\<open>__proto__\<close>, and a non-empty column identifier of a task is the identifier of a column or is
  not a property name of \<^verbatim>\<open>Object.prototype\<close>.
\<close>

definition plainStatusId :: "ProjectStatus list \<Rightarrow> Task \<Rightarrow> bool" where
  "plainStatusId cols task =
     (\<not> truthy (t_statusId task) \<or> the (t_statusId task) \<in> ps_id ` set cols
      \<or> the (t_statusId task) \<notin> set objectPrototypeNames)"

definition plainStatusIds :: "ProjectStatus list \<Rightarrow> Task list \<Rightarrow> bool" where
  "plainStatusIds cols tasks =
     (''__proto__'' \<notin> ps_id ` set cols \<and> list_all (plainStatusId cols) tasks)"

text \<open>Every array of the object, own or prototype, is a subsequence of the list.\<close>

definition bucketsWithin :: "ResultObject \<Rightarrow> Task list \<Rightarrow> bool" where
  "bucketsWithin result tasks =
     ((\<forall>k ts. ro_own result k = Some ts \<longrightarrow> subseq ts tasks)
      \<and> (\<forall>arr. ro_proto result = Some arr \<longrightarrow> subseq arr tasks))"

text \<open>The object has an array under the key: an own property, or the prototype array under
  \<^verbatim>\<open>__proto__\<close>.\<close>

definition hasArray :: "ResultObject \<Rightarrow> string \<Rightarrow> bool" where
  "hasArray result k =
     (ro_own result k \<noteq> None \<or> (k = ''__proto__'' \<and> ro_proto result \<noteq> None))"

subsection \<open>The list move of the drag-and-drop library\<close>

text \<open>
  Modelled from the spec: \<^verbatim>\<open>arrayMove\<close> is imported from the drag-and-drop library
  (\<^verbatim>\<open>@dnd-kit/sortable\<close>), whose code is not part of the repository. The spec describes it as
  the standard single-element list move: remove the element at the source index and reinsert
  it at the destination index, preserving the relative order of all other elements. The
  indices are JavaScript numbers: the board passes only indices that \<^verbatim>\<open>findIndex\<close> found,
  the settings list passes whatever \<^verbatim>\<open>findIndex\<close> returned, also -1. The definition therefore
  works on a copy with two calls of \<^verbatim>\<open>Array.prototype.splice\<close>, as the library does:
  \<^verbatim>\<open>newArray.splice(to < 0 ? newArray.length + to : to, 0, newArray.splice(from, 1)[0])\<close>
  (the destination is computed before the removal). \<open>spliceStart\<close> is the way \<^verbatim>\<open>splice\<close>
  reads its start index. Where no element is removed, JavaScript would insert \<^verbatim>\<open>undefined\<close>,
  which is no value of the element type: the result is \<open>None\<close> there.
\<close>

definition spliceStart :: "nat \<Rightarrow> int \<Rightarrow> nat" where
  "spliceStart len start =
     (if start < 0 then nat (max (int len + start) 0) else min (nat start) len)"

definition arrayMove :: "'a list \<Rightarrow> int \<Rightarrow> int \<Rightarrow> 'a list option" where
  "arrayMove array from to =
     (let dest = (if to < 0 then int (length array) + to else to);
          i = spliceStart (length array) from
      in if i < length array
         then (let x = array ! i;
                   newArray = take i array @ drop (Suc i) array;
                   j = spliceStart (length newArray) dest
               in Some (take j newArray @ x # drop j newArray))
         else None)"

text \<open>
  The move in the words of the spec, on indices of the list: remove the element at the source,
  reinsert it at the destination.
\<close>

definition removeAt :: "nat \<Rightarrow> 'a list \<Rightarrow> 'a list" where
  "removeAt i xs = take i xs @ drop (Suc i) xs"

definition insertAt :: "nat \<Rightarrow> 'a \<Rightarrow> 'a list \<Rightarrow> 'a list" where
  "insertAt i x xs = take i xs @ x # drop i xs"

definition reorderSpec :: "'a list \<Rightarrow> nat \<Rightarrow> nat \<Rightarrow> 'a list" where
  "reorderSpec xs s d = insertAt d (xs ! s) (removeAt s xs)"

subsection \<open>State of the board and of its page\<close>

text \<open>
  The page (app/[teamSlug]/[projectSlug]/page) owns \<^verbatim>\<open>tasks\<close> and \<^verbatim>\<open>statuses\<close> and passes them
  to the board as props; the board owns \<^verbatim>\<open>localStatuses\<close> and the state of the drag gesture.
  One record holds both. A handler reads the values of the latest render, so it is a function
  of this record.
\<close>

datatype DragType = TaskDrag | ColumnDrag

record Board =
  b_tasks :: "Task list"
  b_statuses :: "ProjectStatus list"
  b_localStatuses :: "ProjectStatus list"
  b_activeId :: "string option"
  b_activeType :: "DragType option"
  b_overColumnId :: "string option"

record DragEndEvent =
  ev_active :: string
  ev_over :: "string option"

text \<open>
  A request that has been issued and not yet settled, with the values its \<^verbatim>\<open>catch\<close> block
  closes over: the column list (or the task) of the render in which the gesture ended.
\<close>

datatype Pending =
    ReorderStatuses string "string list" "ProjectStatus list"
  | UpdateTaskStatusById string string Task

text \<open>The memoised \<^verbatim>\<open>columns\<close> of the board, and the \<^verbatim>\<open>baseStatuses\<close> it starts from.\<close>

definition baseStatuses :: "Board \<Rightarrow> ProjectStatus list" where
  "baseStatuses b = (if length (b_statuses b) > 0 then b_statuses b else DEFAULT_STATUSES)"

definition columns :: "Board \<Rightarrow> ProjectStatus list" where
  "columns b =
     (if length (b_localStatuses b) > 0 \<and>
         map_option ps_projectId (first (b_localStatuses b)) =
         map_option ps_projectId (first (baseStatuses b))
      then b_localStatuses b
      else baseStatuses b)"

text \<open>
  The second \<^verbatim>\<open>useMemo\<close> copies a non-empty \<^verbatim>\<open>statuses\<close> prop into \<^verbatim>\<open>localStatuses\<close> whenever the
  prop changes, and at the first render.
\<close>

definition setStatuses :: "ProjectStatus list \<Rightarrow> Board \<Rightarrow> Board" where
  "setStatuses new b =
     (if length new > 0 then b\<lparr>b_statuses := new, b_localStatuses := new\<rparr>
      else b\<lparr>b_statuses := new\<rparr>)"

definition mountBoard :: "Task list \<Rightarrow> ProjectStatus list \<Rightarrow> Board" where
  "mountBoard tasks statuses =
     setStatuses statuses
       \<lparr>b_tasks = tasks, b_statuses = [], b_localStatuses = [], b_activeId = None,
        b_activeType = None, b_overColumnId = None\<rparr>"

text \<open>The page's \<^verbatim>\<open>handleTaskUpdate\<close>, which the board receives as \<^verbatim>\<open>onTaskUpdate\<close>.\<close>

definition handleTaskUpdate :: "Task \<Rightarrow> Board \<Rightarrow> Board" where
  "handleTaskUpdate updatedTask b =
     b\<lparr>b_tasks := map (\<lambda>t. if t_id t = t_id updatedTask then updatedTask else t) (b_tasks b)\<rparr>"

definition handleDragStart :: "string \<Rightarrow> Board \<Rightarrow> Board" where
  "handleDragStart active b =
     b\<lparr>b_activeId := Some active,
       b_activeType := (if startsWith active ''column-'' then Some ColumnDrag else Some TaskDrag)\<rparr>"

text \<open>
  The column that a drop of a task resolves to (\<^verbatim>\<open>targetStatusId\<close>), and the column the dragged
  task is taken to be in (\<^verbatim>\<open>currentStatusId\<close>). Neither falls back to the first column.
\<close>

definition targetStatusId :: "ProjectStatus list \<Rightarrow> Task list \<Rightarrow> string \<Rightarrow> string option" where
  "targetStatusId cols tasks over =
     (if startsWith over ''droppable-'' then Some (stripPrefix ''droppable-'' over)
      else if startsWith over ''column-'' then Some (stripPrefix ''column-'' over)
      else (case List.find (\<lambda>t. t_id t = over) tasks of
              None \<Rightarrow> None
            | Some overTask \<Rightarrow>
                (let target = js_or (t_statusId overTask) None
                 in if \<not> truthy target then js_or (matchingStatusId cols overTask) None
                    else target)))"

definition currentStatusId :: "ProjectStatus list \<Rightarrow> Task \<Rightarrow> string option" where
  "currentStatusId cols task =
     (if \<not> truthy (t_statusId task) then js_or (matchingStatusId cols task) None
      else t_statusId task)"

text \<open>
  \<^verbatim>\<open>handleDragEnd\<close> up to its \<^verbatim>\<open>await\<close>: the new state and the request issued, if any. It
  starts by resetting the gesture (\<open>clearDrag\<close>: \<^verbatim>\<open>setActiveId(null)\<close>, \<^verbatim>\<open>setActiveType(null)\<close>,
  \<^verbatim>\<open>setOverColumnId(null)\<close>). The optional prop \<^verbatim>\<open>onStatusesReorder\<close> is a parameter (the page
  passes none). The window alert and the console output are not part of the state.
\<close>

definition clearDrag :: "Board \<Rightarrow> Board" where
  "clearDrag b = b\<lparr>b_activeId := None, b_activeType := None, b_overColumnId := None\<rparr>"

definition handleDragEnd ::
  "(ProjectStatus list \<Rightarrow> Board \<Rightarrow> Board) option \<Rightarrow> DragEndEvent \<Rightarrow> Board \<Rightarrow> Board \<times> Pending option" where
  "handleDragEnd onStatusesReorder event b =
     (let cols = columns b;
          b0 = clearDrag b;
          active = ev_active event
      in case ev_over event of
           None \<Rightarrow> (b0, None)
         | Some over \<Rightarrow>
             if startsWith active ''column-'' \<and> startsWith over ''column-''
             then (let activeColumnId = stripPrefix ''column-'' active;
                       overColumnId = stripPrefix ''column-'' over
                   in if activeColumnId \<noteq> overColumnId
                      then (let oldIndex = findIndex (\<lambda>c. ps_id c = activeColumnId) cols;
                                newIndex = findIndex (\<lambda>c. ps_id c = overColumnId) cols
                            in if oldIndex \<noteq> - 1 \<and> newIndex \<noteq> - 1
                               then (case arrayMove cols oldIndex newIndex of
                                       None \<Rightarrow> (b0, None)
                                     | Some newColumns \<Rightarrow>
                                         (let b1 = b0\<lparr>b_localStatuses := newColumns\<rparr>;
                                              b2 = (case onStatusesReorder of
                                                      None \<Rightarrow> b1
                                                    | Some f \<Rightarrow> f newColumns b1);
                                              projectId = map_option ps_projectId (first cols)
                                          in if truthy projectId \<and> projectId \<noteq> Some []
                                             then (b2, Some (ReorderStatuses (the projectId)
                                                               (map ps_id newColumns) cols))
                                             else (b2, None)))
                               else (b0, None))
                      else (b0, None))
             else if b_activeType b = Some TaskDrag
             then (case List.find (\<lambda>t. t_id t = active) (b_tasks b) of
                     None \<Rightarrow> (b0, None)
                   | Some task \<Rightarrow>
                       (let target = targetStatusId cols (b_tasks b) over;
                            current = currentStatusId cols task
                        in if truthy target \<and> target \<noteq> current
                           then (handleTaskUpdate (task\<lparr>t_statusId := target\<rparr>) b0,
                                 Some (UpdateTaskStatusById active (the target) task))
                           else (b0, None)))
             else (b0, None))"

text \<open>
  The rest of \<^verbatim>\<open>handleDragEnd\<close>, after the \<^verbatim>\<open>await\<close>: nothing when the request is fulfilled, the
  \<^verbatim>\<open>catch\<close> block when it is rejected.
\<close>

definition fulfilled :: "Pending \<Rightarrow> Board \<Rightarrow> Board" where
  "fulfilled p b = b"

fun rejected :: "Pending \<Rightarrow> Board \<Rightarrow> Board" where
  "rejected (ReorderStatuses projectId statusIds cols) b = b\<lparr>b_localStatuses := cols\<rparr>"
| "rejected (UpdateTaskStatusById taskId statusId task) b = handleTaskUpdate task b"

section \<open>The status settings (components/project-settings/status-settings)\<close>

text \<open>
  The settings page owns \<^verbatim>\<open>statuses\<close>; its \<^verbatim>\<open>handleStatusesUpdate\<close> stores the list it is given.
  \<^verbatim>\<open>handleDragEnd\<close> of the settings list does not check the indices. When \<^verbatim>\<open>arrayMove\<close> removes
  nothing, \<^verbatim>\<open>newStatuses.map((s) => s.id)\<close> throws inside the \<^verbatim>\<open>try\<close> block before a request is
  issued, and the \<^verbatim>\<open>catch\<close> block stores the old list and the error message.
\<close>

datatype SettingsError = ReorderFailed

record Settings =
  s_projectId :: string
  s_statuses :: "ProjectStatus list"
  s_error :: "SettingsError option"

definition settingsHandleDragEnd :: "DragEndEvent \<Rightarrow> Settings \<Rightarrow> Settings \<times> Pending option" where
  "settingsHandleDragEnd event s =
     (let statuses = s_statuses s; active = ev_active event
      in case ev_over event of
           None \<Rightarrow> (s, None)
         | Some over \<Rightarrow>
             if active \<noteq> over
             then (let oldIndex = findIndex (\<lambda>st. ps_id st = active) statuses;
                       newIndex = findIndex (\<lambda>st. ps_id st = over) statuses
                   in case arrayMove statuses oldIndex newIndex of
                        None \<Rightarrow> (s\<lparr>s_statuses := statuses, s_error := Some ReorderFailed\<rparr>, None)
                      | Some newStatuses \<Rightarrow>
                          (s\<lparr>s_statuses := newStatuses, s_error := None\<rparr>,
                           Some (ReorderStatuses (s_projectId s) (map ps_id newStatuses) statuses)))
             else (s, None))"

fun settingsRejected :: "Pending \<Rightarrow> Settings \<Rightarrow> Settings" where
  "settingsRejected (ReorderStatuses projectId statusIds statuses) s =
     s\<lparr>s_statuses := statuses, s_error := Some ReorderFailed\<rparr>"
| "settingsRejected (UpdateTaskStatusById taskId statusId task) s = s"

section \<open>The reorder gesture\<close>

text \<open>
  The sortable items of the board are named \<^verbatim>\<open>column-${c.id}\<close>, those of the settings list
  \<^verbatim>\<open>status.id\<close>. Releasing the column at index \<open>s\<close> over the column at index \<open>d\<close> ends the drag
  with the event below; \<open>reorderColumns\<close> and \<open>settingsReorder\<close> run the handlers on it.
\<close>

definition columnDragEvent :: "ProjectStatus list \<Rightarrow> nat \<Rightarrow> nat \<Rightarrow> DragEndEvent" where
  "columnDragEvent cols s d =
     \<lparr>ev_active = ''column-'' @ ps_id (cols ! s), ev_over = Some (''column-'' @ ps_id (cols ! d))\<rparr>"

definition reorderColumns :: "nat \<Rightarrow> nat \<Rightarrow> Board \<Rightarrow> Board \<times> Pending option" where
  "reorderColumns s d b = handleDragEnd None (columnDragEvent (columns b) s d) b"

definition settingsDragEvent :: "ProjectStatus list \<Rightarrow> nat \<Rightarrow> nat \<Rightarrow> DragEndEvent" where
  "settingsDragEvent statuses s d =
     \<lparr>ev_active = ps_id (statuses ! s), ev_over = Some (ps_id (statuses ! d))\<rparr>"

definition settingsReorder :: "nat \<Rightarrow> nat \<Rightarrow> Settings \<Rightarrow> Settings \<times> Pending option" where
  "settingsReorder s d st = settingsHandleDragEnd (settingsDragEvent (s_statuses st) s d) st"

section \<open>Example data\<close>

text \<open>
  A column of project \<open>p\<close> with identifier \<open>i\<close>, slug and name \<open>sl\<close> and position \<open>n\<close>; a task
  without column identifier; the three-column project and the four-column project that the
  examples below run on.
\<close>

definition mkStatus :: "string \<Rightarrow> string \<Rightarrow> string \<Rightarrow> int \<Rightarrow> ProjectStatus" where
  "mkStatus i p sl n =
     \<lparr>ps_id = i, ps_projectId = p, ps_name = sl, ps_slug = sl, ps_color = ''#6B7280'',
      ps_position = n, ps_isDone = 0, ps_createdAt = ''''\<rparr>"

definition mkTask :: "string \<Rightarrow> TaskStatus \<Rightarrow> string option \<Rightarrow> Task" where
  "mkTask i st sid =
     \<lparr>t_id = i, t_title = ''task'', t_status = st, t_statusId = sid, t_projectId = ''p1''\<rparr>"

definition todoColumns :: "ProjectStatus list" where
  "todoColumns =
     [mkStatus ''s-todo'' ''p1'' ''todo'' 0, mkStatus ''s-prog'' ''p1'' ''in_progress'' 1,
      mkStatus ''s-done'' ''p1'' ''done'' 2]"

definition abcdColumns :: "ProjectStatus list" where
  "abcdColumns =
     [mkStatus ''A'' ''p1'' ''a'' 0, mkStatus ''B'' ''p1'' ''b'' 1, mkStatus ''C'' ''p1'' ''c'' 2,
      mkStatus ''D'' ''p1'' ''d'' 3]"

definition abcdBoard :: Board where
  "abcdBoard = mountBoard [] abcdColumns"

definition dragAC :: DragEndEvent where
  "dragAC = \<lparr>ev_active = ''column-A'', ev_over = Some ''column-C''\<rparr>"

definition dragBD :: DragEndEvent where
  "dragBD = \<lparr>ev_active = ''column-B'', ev_over = Some ''column-D''\<rparr>"

definition abcdSettings :: Settings where
  "abcdSettings = \<lparr>s_projectId = ''p1'', s_statuses = abcdColumns, s_error = None\<rparr>"

definition settingsDragAC :: DragEndEvent where
  "settingsDragAC = \<lparr>ev_active = ''A'', ev_over = Some ''C''\<rparr>"

definition settingsDragBD :: DragEndEvent where
  "settingsDragBD = \<lparr>ev_active = ''B'', ev_over = Some ''D''\<rparr>"

definition bcadColumns :: "ProjectStatus list" where
  "bcadColumns =
     [mkStatus ''B'' ''p1'' ''b'' 1, mkStatus ''C'' ''p1'' ''c'' 2, mkStatus ''A'' ''p1'' ''a'' 0,
      mkStatus ''D'' ''p1'' ''d'' 3]"

definition cadbColumns :: "ProjectStatus list" where
  "cadbColumns =
     [mkStatus ''C'' ''p1'' ''c'' 2, mkStatus ''A'' ''p1'' ''a'' 0, mkStatus ''D'' ''p1'' ''d'' 3,
      mkStatus ''B'' ''p1'' ''b'' 1]"

definition boardAfterAC :: Board where
  "boardAfterAC = (clearDrag abcdBoard)\<lparr>b_localStatuses := bcadColumns\<rparr>"

definition pendingAC :: Pending where
  "pendingAC = ReorderStatuses ''p1'' [''B'', ''C'', ''A'', ''D''] abcdColumns"

definition boardAfterBD :: Board where
  "boardAfterBD = (clearDrag boardAfterAC)\<lparr>b_localStatuses := cadbColumns\<rparr>"

definition pendingBD :: Pending where
  "pendingBD = ReorderStatuses ''p1'' [''C'', ''A'', ''D'', ''B''] bcadColumns"

definition settingsAfterAC :: Settings where
  "settingsAfterAC = abcdSettings\<lparr>s_statuses := bcadColumns, s_error := None\<rparr>"

definition settingsAfterBD :: Settings where
  "settingsAfterBD = settingsAfterAC\<lparr>s_statuses := cadbColumns, s_error := None\<rparr>"

definition defaultBoard :: Board where
  "defaultBoard = mountBoard [] []"

definition reviewCard :: Task where
  "reviewCard = mkTask ''t1'' IN_REVIEW None"

definition todoCard :: Task where
  "todoCard = mkTask ''t2'' TODO (Some ''s-todo'')"




definition cardBoard :: "string \<Rightarrow> Board" where
  "cardBoard tid = handleDragStart tid (mountBoard [todoCard, reviewCard] todoColumns)"

definition dropOn :: "string \<Rightarrow> string \<Rightarrow> DragEndEvent" where
  "dropOn tid col = \<lparr>ev_active = tid, ev_over = Some (''droppable-'' @ col)\<rparr>"

section \<open>Properties of the grouping\<close>

subsection \<open>Identifiers that meet no inherited property\<close>

lemma initResult_fold_own:
  "''__proto__'' \<notin> ps_id ` set cols \<Longrightarrow>
   ro_own (fold (\<lambda>status result. setEmpty (ps_id status) result) cols r) k =
     (if k \<in> ps_id ` set cols then Some [] else ro_own r k)"
  by (induction cols arbitrary: r) (auto simp: setEmpty_def)

lemma initResult_fold_proto:
  "''__proto__'' \<notin> ps_id ` set cols \<Longrightarrow>
   ro_proto (fold (\<lambda>status result. setEmpty (ps_id status) result) cols r) = ro_proto r"
  by (induction cols arbitrary: r) (auto simp: setEmpty_def)

lemma initResult_plain:
  assumes "''__proto__'' \<notin> ps_id ` set cols"
  shows "ro_own (initResult cols) k = (if k \<in> ps_id ` set cols then Some [] else None)"
    and "ro_proto (initResult cols) = None"
  by (simp_all add: initResult_def initResult_fold_own[OF assms] initResult_fold_proto[OF assms])

lemma getSlot_own: "ro_own r k = Some ts \<Longrightarrow> getSlot r k = OwnArray k ts"
  by (simp add: getSlot_def)

lemma getSlot_absent:
  "ro_own r k = None \<Longrightarrow> ro_proto r = None \<Longrightarrow> k \<notin> set objectPrototypeNames \<Longrightarrow>
   getSlot r k = Undefined"
  by (simp add: getSlot_def)

lemma columnTasks_plain:
  "ro_proto r = None \<Longrightarrow> columnTasks r k = (case ro_own r k of None \<Rightarrow> [] | Some ts \<Rightarrow> ts)"
  by (simp add: columnTasks_def getSlot_def split: option.splits)

lemma groupStatusId_fallback_in:
  assumes "\<not> truthy (t_statusId task)" and "truthy (groupStatusId cols task)"
  shows "the (groupStatusId cols task) \<in> ps_id ` set cols"
proof (cases "truthy (matchingStatusId cols task)")
  case True
  then obtain k where k: "matchingStatusId cols task = Some k" by (cases "matchingStatusId cols task") auto
  then have "k \<in> ps_id ` set cols" by (auto simp: matchingStatusId_def find_Some_iff)
  with True k assms(1) show ?thesis by (simp add: groupStatusId_def js_or_def)
next
  case False
  with assms have "truthy (map_option ps_id (first cols))"
    by (simp add: groupStatusId_def js_or_def)
  then obtain c cs where "cols = c # cs" by (cases cols) (auto simp: first_def)
  with False assms(1) show ?thesis by (simp add: groupStatusId_def js_or_def first_def)
qed

lemma effectiveColumn_in: "cols \<noteq> [] \<Longrightarrow> effectiveColumn cols task \<in> ps_id ` set cols"
  by (cases cols) (auto simp: effectiveColumn_def Let_def)

lemma groupTask_plain:
  assumes "ro_proto r = None" and "dom (ro_own r) = ps_id ` set cols" and "cols \<noteq> []"
    and "plainStatusId cols task"
  shows "groupTask cols task r =
         Inr (r\<lparr>ro_own := (ro_own r)(effectiveColumn cols task \<mapsto>
                               the (ro_own r (effectiveColumn cols task)) @ [task])\<rparr>)"
proof -
  obtain c cs where cols: "cols = c # cs" using assms(3) by (cases cols) auto
  have key: "\<And>k. (ro_own r k \<noteq> None) = (k \<in> ps_id ` set cols)"
    using assms(2) by (auto simp: domIff)
  obtain ts0 where c0: "ro_own r (ps_id c) = Some ts0"
    using key[of "ps_id c"] cols by auto
  let ?sid = "groupStatusId cols task"
  show ?thesis
  proof (cases "truthy ?sid \<and> the ?sid \<in> ps_id ` set cols")
    case True
    then obtain ts where ts: "ro_own r (the ?sid) = Some ts" using key[of "the ?sid"] by auto
    with True show ?thesis
      by (simp add: groupTask_def effectiveColumn_def Let_def getSlot_own[OF ts])
  next
    case False
    have "\<not> (truthy ?sid \<and> slotTruthy (getSlot r (the ?sid)))"
    proof
      assume a: "truthy ?sid \<and> slotTruthy (getSlot r (the ?sid))"
      with False have out: "the ?sid \<notin> ps_id ` set cols" by simp
      then have none: "ro_own r (the ?sid) = None" using key[of "the ?sid"] by simp
      have direct: "truthy (t_statusId task)"
        using groupStatusId_fallback_in[of task cols] a out by blast
      then have "?sid = t_statusId task" by (simp add: groupStatusId_def)
      with assms(4) direct out have "the ?sid \<notin> set objectPrototypeNames"
        by (simp add: plainStatusId_def)
      from getSlot_absent[OF none assms(1) this] a show False by simp
    qed
    then have g: "groupTask cols task r =
               (case first cols of
                  None \<Rightarrow> Inr r
                | Some c \<Rightarrow> (case getSlot r (ps_id c) of Undefined \<Rightarrow> Inr r
                            | v \<Rightarrow> pushTask v task r))"
      unfolding groupTask_def Let_def by (rule if_not_P)
    have e: "effectiveColumn cols task = ps_id (hd cols)"
      unfolding effectiveColumn_def Let_def using False by (rule if_not_P)
    show ?thesis
      unfolding g e by (simp add: cols first_def getSlot_own[OF c0] c0)
  qed
qed

lemma groupTasks_plain:
  assumes "cols \<noteq> []"
  shows "ro_proto r = None \<Longrightarrow> dom (ro_own r) = ps_id ` set cols \<Longrightarrow>
         list_all (plainStatusId cols) tasks \<Longrightarrow>
         \<exists>r'. groupTasks cols tasks r = Inr r' \<and> ro_proto r' = None
              \<and> (\<forall>k. ro_own r' k =
                    (if k \<in> ps_id ` set cols
                     then Some (the (ro_own r k) @ filter (\<lambda>t. effectiveColumn cols t = k) tasks)
                     else None))"
proof (induction tasks arbitrary: r)
  case Nil
  then have "\<And>k. (k \<in> ps_id ` set cols) = (ro_own r k \<noteq> None)" by (auto simp: domIff)
  with Nil show ?case by auto
next
  case (Cons t tasks)
  define r1 where
    "r1 = r\<lparr>ro_own := (ro_own r)(effectiveColumn cols t \<mapsto>
                          the (ro_own r (effectiveColumn cols t)) @ [t])\<rparr>"
  have pt: "plainStatusId cols t" and rest: "list_all (plainStatusId cols) tasks"
    using Cons.prems(3) by simp_all
  have step: "groupTask cols t r = Inr r1"
    unfolding r1_def by (rule groupTask_plain[OF Cons.prems(1,2) assms pt])
  have p1: "ro_proto r1 = None" using Cons.prems(1) by (simp add: r1_def)
  have d1: "dom (ro_own r1) = ps_id ` set cols"
    using Cons.prems(2) effectiveColumn_in[OF assms, of t] by (auto simp: r1_def)
  from Cons.IH[OF p1 d1 rest] obtain r' where
    g: "groupTasks cols tasks r1 = Inr r'" and p: "ro_proto r' = None"
    and o: "\<And>k. ro_own r' k =
              (if k \<in> ps_id ` set cols
               then Some (the (ro_own r1 k) @ filter (\<lambda>t. effectiveColumn cols t = k) tasks)
               else None)"
    by blast
  have rk: "\<And>k. the (ro_own r1 k) =
              the (ro_own r k) @ (if effectiveColumn cols t = k then [t] else [])"
    by (simp add: r1_def)
  have "groupTasks cols (t # tasks) r = Inr r'" by (simp add: step g)
  moreover have "\<And>k. ro_own r' k =
      (if k \<in> ps_id ` set cols
       then Some (the (ro_own r k) @ filter (\<lambda>u. effectiveColumn cols u = k) (t # tasks))
       else None)"
    by (simp add: o rk)
  ultimately show ?case using p by blast
qed

lemma tasksByStatusId_plain:
  assumes "cols \<noteq> []" and "plainStatusIds cols tasks"
  shows "\<exists>r. tasksByStatusId cols tasks = Inr r \<and> ro_proto r = None
             \<and> dom (ro_own r) = ps_id ` set cols
             \<and> (\<forall>k. columnTasks r k =
                   (if k \<in> ps_id ` set cols
                    then filter (\<lambda>t. effectiveColumn cols t = k) tasks else []))"
proof -
  from assms(2) have np: "''__proto__'' \<notin> ps_id ` set cols"
    and pl: "list_all (plainStatusId cols) tasks"
    by (simp_all add: plainStatusIds_def)
  have d: "dom (ro_own (initResult cols)) = ps_id ` set cols"
    by (auto simp: dom_def initResult_plain(1)[OF np])
  from groupTasks_plain[OF assms(1) initResult_plain(2)[OF np] d pl]
  obtain r where g: "groupTasks cols tasks (initResult cols) = Inr r" and p: "ro_proto r = None"
    and o: "\<And>k. ro_own r k =
              (if k \<in> ps_id ` set cols
               then Some (the (ro_own (initResult cols) k) @
                          filter (\<lambda>t. effectiveColumn cols t = k) tasks)
               else None)"
    by blast
  have o': "\<And>k. ro_own r k =
              (if k \<in> ps_id ` set cols
               then Some (filter (\<lambda>t. effectiveColumn cols t = k) tasks) else None)"
    by (simp add: o initResult_plain(1)[OF np])
  have "dom (ro_own r) = ps_id ` set cols" by (auto simp: dom_def o')
  moreover have "\<And>k. columnTasks r k =
                   (if k \<in> ps_id ` set cols
                    then filter (\<lambda>t. effectiveColumn cols t = k) tasks else [])"
    by (simp add: columnTasks_plain[OF p] o')
  ultimately show ?thesis using g p by (auto simp: tasksByStatusId_def)
qed



subsection \<open>Order of the buckets, for all identifiers\<close>

lemma bucketsWithin_mono: "bucketsWithin r pre \<Longrightarrow> bucketsWithin r (pre @ zs)"
  unfolding bucketsWithin_def using subseq_rev_drop_many by blast

lemma getSlot_OwnArray: "getSlot r k = OwnArray j ts \<Longrightarrow> ro_own r j = Some ts"
  by (auto simp: getSlot_def split: option.splits if_splits)

lemma getSlot_ProtoArray: "getSlot r k = ProtoArray arr \<Longrightarrow> ro_proto r = Some arr"
  by (auto simp: getSlot_def split: option.splits if_splits)

lemma pushTask_within:
  assumes "pushTask (getSlot r k) t r = Inr r'" and "bucketsWithin r pre"
  shows "bucketsWithin r' (pre @ [t])"
proof (cases "getSlot r k")
  case (OwnArray j ts)
  from getSlot_OwnArray[OF this] assms(2) have "subseq ts pre" by (auto simp: bucketsWithin_def)
  then have "subseq (ts @ [t]) (pre @ [t])" by simp
  moreover from assms(1) OwnArray have "r' = r\<lparr>ro_own := (ro_own r)(j \<mapsto> ts @ [t])\<rparr>" by simp
  ultimately show ?thesis
    using bucketsWithin_mono[OF assms(2), of "[t]"] by (auto simp: bucketsWithin_def)
next
  case (ProtoArray arr)
  from getSlot_ProtoArray[OF this] assms(2) have "subseq arr pre" by (auto simp: bucketsWithin_def)
  then have "subseq (arr @ [t]) (pre @ [t])" by simp
  moreover from assms(1) ProtoArray have "r' = r\<lparr>ro_proto := Some (arr @ [t])\<rparr>" by simp
  ultimately show ?thesis
    using bucketsWithin_mono[OF assms(2), of "[t]"] by (auto simp: bucketsWithin_def)
qed (use assms(1) in simp_all)

lemma groupTask_within:
  assumes "groupTask cols t r = Inr r'" and "bucketsWithin r pre"
  shows "bucketsWithin r' (pre @ [t])"
proof (cases "truthy (groupStatusId cols t) \<and> slotTruthy (getSlot r (the (groupStatusId cols t)))")
  case True
  have "groupTask cols t r = pushTask (getSlot r (the (groupStatusId cols t))) t r"
    unfolding groupTask_def Let_def using True by (rule if_P)
  with assms(1) have "pushTask (getSlot r (the (groupStatusId cols t))) t r = Inr r'" by simp
  from pushTask_within[OF this assms(2)] show ?thesis .
next
  case False
  have g: "groupTask cols t r =
           (case first cols of
              None \<Rightarrow> Inr r
            | Some c \<Rightarrow> (case getSlot r (ps_id c) of Undefined \<Rightarrow> Inr r
                        | v \<Rightarrow> pushTask v t r))"
    unfolding groupTask_def Let_def using False by (rule if_not_P)
  show ?thesis
  proof (cases "first cols")
    case None
    with g assms(1) have "r' = r" by simp
    with bucketsWithin_mono[OF assms(2)] show ?thesis by simp
  next
    case (Some c)
    show ?thesis
    proof (cases "getSlot r (ps_id c) = Undefined")
      case True
      with g Some assms(1) have "r' = r" by simp
      with bucketsWithin_mono[OF assms(2)] show ?thesis by simp
    next
      case nu: False
      with g Some assms(1) have "pushTask (getSlot r (ps_id c)) t r = Inr r'"
        by (cases "getSlot r (ps_id c)") simp_all
      from pushTask_within[OF this assms(2)] show ?thesis .
    qed
  qed
qed

lemma groupTasks_within:
  "groupTasks cols tasks r = Inr r' \<Longrightarrow> bucketsWithin r pre \<Longrightarrow> bucketsWithin r' (pre @ tasks)"
proof (induction tasks arbitrary: r pre)
  case Nil
  then show ?case by simp
next
  case (Cons t tasks)
  from Cons.prems(1) obtain r1 where s: "groupTask cols t r = Inr r1"
    and g: "groupTasks cols tasks r1 = Inr r'"
    by (auto split: sum.splits)
  from Cons.IH[OF g groupTask_within[OF s Cons.prems(2)]] show ?case by simp
qed

lemma initResult_fold_within:
  "bucketsWithin r [] \<Longrightarrow>
   bucketsWithin (fold (\<lambda>status result. setEmpty (ps_id status) result) cols r) []"
proof (induction cols arbitrary: r)
  case Nil
  then show ?case by simp
next
  case (Cons c cols)
  have "bucketsWithin (setEmpty (ps_id c) r) []"
    using Cons.prems by (simp add: setEmpty_def bucketsWithin_def)
  from Cons.IH[OF this] show ?case by simp
qed

lemma initResult_within: "bucketsWithin (initResult cols) []"
  unfolding initResult_def by (rule initResult_fold_within) (simp add: bucketsWithin_def)

lemma columnTasks_within: "bucketsWithin r tasks \<Longrightarrow> subseq (columnTasks r k) tasks"
  by (cases "getSlot r k")
     (auto simp: columnTasks_def bucketsWithin_def dest: getSlot_OwnArray getSlot_ProtoArray)

lemma tasksByStatusId_within:
  "tasksByStatusId cols tasks = Inr r \<Longrightarrow> subseq (columnTasks r k) tasks"
proof -
  assume "tasksByStatusId cols tasks = Inr r"
  then have "groupTasks cols tasks (initResult cols) = Inr r" by (simp add: tasksByStatusId_def)
  from groupTasks_within[OF this initResult_within] have "bucketsWithin r tasks" by simp
  then show ?thesis by (rule columnTasks_within)
qed

subsection \<open>The value read at a column identifier is an array\<close>

lemma hasArray_setEmpty: "hasArray r k \<or> k = j \<Longrightarrow> hasArray (setEmpty j r) k"
  by (auto simp: hasArray_def setEmpty_def)

lemma hasArray_fold:
  "hasArray r k \<or> k \<in> ps_id ` set cols \<Longrightarrow>
   hasArray (fold (\<lambda>status result. setEmpty (ps_id status) result) cols r) k"
proof (induction cols arbitrary: r)
  case Nil
  then show ?case by simp
next
  case (Cons c cols)
  then have "hasArray (setEmpty (ps_id c) r) k \<or> k \<in> ps_id ` set cols"
    using hasArray_setEmpty[of r k "ps_id c"] by auto
  from Cons.IH[OF this] show ?case by simp
qed

lemma hasArray_pushTask:
  assumes "pushTask (getSlot r j) t r = Inr r'" and "hasArray r k"
  shows "hasArray r' k"
proof (cases "getSlot r j")
  case (OwnArray i ts)
  with assms show ?thesis by (auto simp: hasArray_def split: if_splits)
next
  case (ProtoArray arr)
  with assms show ?thesis by (auto simp: hasArray_def split: if_splits)
qed (use assms(1) in simp_all)

lemma hasArray_groupTask:
  assumes "groupTask cols t r = Inr r'" and "hasArray r k"
  shows "hasArray r' k"
proof (cases "truthy (groupStatusId cols t) \<and> slotTruthy (getSlot r (the (groupStatusId cols t)))")
  case True
  have "groupTask cols t r = pushTask (getSlot r (the (groupStatusId cols t))) t r"
    unfolding groupTask_def Let_def using True by (rule if_P)
  with assms(1) have "pushTask (getSlot r (the (groupStatusId cols t))) t r = Inr r'" by simp
  from hasArray_pushTask[OF this assms(2)] show ?thesis .
next
  case False
  have g: "groupTask cols t r =
           (case first cols of
              None \<Rightarrow> Inr r
            | Some c \<Rightarrow> (case getSlot r (ps_id c) of Undefined \<Rightarrow> Inr r
                        | v \<Rightarrow> pushTask v t r))"
    unfolding groupTask_def Let_def using False by (rule if_not_P)
  show ?thesis
  proof (cases "first cols")
    case None
    with g assms show ?thesis by simp
  next
    case (Some c)
    show ?thesis
    proof (cases "getSlot r (ps_id c) = Undefined")
      case True
      with g Some assms show ?thesis by simp
    next
      case nu: False
      with g Some assms(1) have "pushTask (getSlot r (ps_id c)) t r = Inr r'"
        by (cases "getSlot r (ps_id c)") simp_all
      from hasArray_pushTask[OF this assms(2)] show ?thesis .
    qed
  qed
qed

lemma hasArray_groupTasks:
  "groupTasks cols tasks r = Inr r' \<Longrightarrow> hasArray r k \<Longrightarrow> hasArray r' k"
proof (induction tasks arbitrary: r)
  case Nil
  then show ?case by simp
next
  case (Cons t tasks)
  from Cons.prems(1) obtain r1 where s: "groupTask cols t r = Inr r1"
    and g: "groupTasks cols tasks r1 = Inr r'"
    by (auto split: sum.splits)
  from Cons.IH[OF g hasArray_groupTask[OF s Cons.prems(2)]] show ?case .
qed

lemma column_slot_is_array:
  assumes "tasksByStatusId cols tasks = Inr r" and "k \<in> ps_id ` set cols"
  shows "\<exists>ts. getSlot r k = OwnArray k ts \<or> getSlot r k = ProtoArray ts"
proof -
  have "hasArray (initResult cols) k"
    unfolding initResult_def using assms(2) by (intro hasArray_fold) simp
  moreover from assms(1) have "groupTasks cols tasks (initResult cols) = Inr r"
    by (simp add: tasksByStatusId_def)
  ultimately have "hasArray r k" by (rule hasArray_groupTasks[rotated])
  then show ?thesis
    by (auto simp: hasArray_def getSlot_def split: option.splits)
qed

subsection \<open>Every card in one bucket\<close>





subsection \<open>Order within a bucket\<close>

text \<open>
  Claim C10. Whenever the grouping returns a result, whatever the identifiers are, every column
  bucket is a subsequence of the input: two cards of one bucket are in the order of the input.
  For a non-empty column list and identifiers that meet no inherited property the grouping does
  return a result, and the bucket of each column is the input list filtered by effective column,
  which is the input list restricted to the members of the bucket.
\<close>

theorem tasksByStatusId_keeps_input_order:
  "(tasksByStatusId cols tasks = Inr result \<longrightarrow> subseq (columnTasks result k) tasks)
   \<and> (cols \<noteq> [] \<and> plainStatusIds cols tasks \<longrightarrow>
        (\<exists>r. tasksByStatusId cols tasks = Inr r
           \<and> (\<forall>j \<in> ps_id ` set cols.
                 columnTasks r j = filter (\<lambda>t. effectiveColumn cols t = j) tasks)
           \<and> (\<forall>j. columnTasks r j = filter (\<lambda>t. t \<in> set (columnTasks r j)) tasks)))"
proof (intro conjI impI)
  assume "tasksByStatusId cols tasks = Inr result"
  then show "subseq (columnTasks result k) tasks" by (rule tasksByStatusId_within)
next
  assume h: "cols \<noteq> [] \<and> plainStatusIds cols tasks"
  then have ne: "cols \<noteq> []" by simp
  from tasksByStatusId_plain[OF ne] h obtain r where
    g: "tasksByStatusId cols tasks = Inr r"
    and c: "\<And>j. columnTasks r j =
              (if j \<in> ps_id ` set cols
               then filter (\<lambda>t. effectiveColumn cols t = j) tasks else [])"
    by blast
  have a: "\<forall>j \<in> ps_id ` set cols.
             columnTasks r j = filter (\<lambda>t. effectiveColumn cols t = j) tasks"
    by (simp add: c)
  have b: "\<forall>j. columnTasks r j = filter (\<lambda>t. t \<in> set (columnTasks r j)) tasks"
  proof
    fix j
    define P where "P = (\<lambda>t. effectiveColumn cols t = j)"
    have BP: "columnTasks r j = filter P tasks"
    proof (cases "j \<in> ps_id ` set cols")
      case True
      then show ?thesis by (simp add: c P_def)
    next
      case False
      then have "filter P tasks = []"
        unfolding P_def using effectiveColumn_in[OF ne] by (auto simp: filter_empty_conv)
      with False show ?thesis by (simp add: c)
    qed
    have "filter (\<lambda>t. t \<in> set (filter P tasks)) tasks = filter P tasks"
      by (rule filter_cong) auto
    then show "columnTasks r j = filter (\<lambda>t. t \<in> set (columnTasks r j)) tasks"
      unfolding BP by simp
  qed
  show "\<exists>r. tasksByStatusId cols tasks = Inr r
           \<and> (\<forall>j \<in> ps_id ` set cols.
                 columnTasks r j = filter (\<lambda>t. effectiveColumn cols t = j) tasks)
           \<and> (\<forall>j. columnTasks r j = filter (\<lambda>t. t \<in> set (columnTasks r j)) tasks)"
    using g a b by blast
qed

lemma todo_cards_effective:
  "effectiveColumn todoColumns todoCard = ''s-todo''"
  "effectiveColumn todoColumns reviewCard = ''s-todo''"
  "effectiveColumn todoColumns (mkTask ''t5'' DONE None) = ''s-done''"
  by (simp_all add: effectiveColumn_def groupStatusId_def matchingStatusId_def js_or_def
        first_def todoColumns_def mkStatus_def reviewCard_def todoCard_def mkTask_def)

theorem tasksByStatusId_keeps_input_order_witness:
  "todoColumns \<noteq> []
   \<and> plainStatusIds todoColumns [todoCard, mkTask ''t5'' DONE None, reviewCard]
   \<and> ''s-todo'' \<in> ps_id ` set todoColumns
   \<and> (\<exists>r. tasksByStatusId todoColumns [todoCard, mkTask ''t5'' DONE None, reviewCard] = Inr r
          \<and> columnTasks r ''s-todo'' = [todoCard, reviewCard]
          \<and> subseq (columnTasks r ''s-todo'') [todoCard, mkTask ''t5'' DONE None, reviewCard])
   \<and> [todoCard, reviewCard] \<noteq> [reviewCard, todoCard]"
proof -
  let ?tasks = "[todoCard, mkTask ''t5'' DONE None, reviewCard]"
  have h1: "todoColumns \<noteq> []" by (simp add: todoColumns_def)
  have h2: "plainStatusIds todoColumns ?tasks"
    by (simp add: plainStatusIds_def plainStatusId_def todoColumns_def mkStatus_def todoCard_def
          reviewCard_def mkTask_def)
  have h3: "''s-todo'' \<in> ps_id ` set todoColumns" by (simp add: todoColumns_def mkStatus_def)
  have n: "[todoCard, reviewCard] \<noteq> [reviewCard, todoCard]"
    by (simp add: todoCard_def reviewCard_def mkTask_def)
  note t = tasksByStatusId_keeps_input_order[of todoColumns ?tasks]
  from t h1 h2 obtain r where
    g: "tasksByStatusId todoColumns ?tasks = Inr r"
    and f: "\<forall>j \<in> ps_id ` set todoColumns.
              columnTasks r j = filter (\<lambda>t. effectiveColumn todoColumns t = j) ?tasks"
    by blast
  from bspec[OF f h3] have c: "columnTasks r ''s-todo'' = [todoCard, reviewCard]"
    by (simp add: todo_cards_effective)
  from t g have s: "subseq (columnTasks r ''s-todo'') ?tasks" by blast
  from h1 h2 h3 g c s n show ?thesis by blast
qed

section \<open>Properties of the column list\<close>

lemma DEFAULT_STATUSES_nonempty: "DEFAULT_STATUSES \<noteq> []"
  by (simp add: DEFAULT_STATUSES_def)

lemma baseStatuses_nonempty: "baseStatuses b \<noteq> []"
  by (simp add: baseStatuses_def DEFAULT_STATUSES_nonempty)

lemma columns_alt:
  "columns b =
     (if b_localStatuses b \<noteq> [] \<and>
         map_option ps_projectId (first (b_localStatuses b)) =
         map_option ps_projectId (first (baseStatuses b))
      then b_localStatuses b else baseStatuses b)"
  by (simp add: columns_def)

lemma columns_nonempty: "columns b \<noteq> []"
  by (simp add: columns_alt baseStatuses_nonempty)

lemma first_projectId_columns:
  "map_option ps_projectId (first (columns b)) = map_option ps_projectId (first (baseStatuses b))"
  by (simp add: columns_alt)

lemma columns_restore:
  assumes "b_statuses b' = b_statuses b" and "b_localStatuses b' = columns b"
  shows "columns b' = columns b"
proof -
  have "baseStatuses b' = baseStatuses b" using assms(1) by (simp add: baseStatuses_def)
  then show ?thesis
    using assms(2) columns_nonempty[of b] first_projectId_columns[of b]
    by (simp add: columns_alt[of b'])
qed

section \<open>Properties of \<open>findIndex\<close> and \<open>arrayMove\<close>\<close>

lemma findIndex_range:
  "findIndex P xs = - 1 \<or> (0 \<le> findIndex P xs \<and> findIndex P xs < int (length xs))"
  by (induction xs) (auto simp: Let_def)

lemma findIndex_nth:
  assumes "distinct (map f xs)" and "i < length xs"
  shows "findIndex (\<lambda>c. f c = f (xs ! i)) xs = int i"
  using assms
proof (induction xs arbitrary: i)
  case Nil
  then show ?case by simp
next
  case (Cons x xs)
  show ?case
  proof (cases i)
    case 0
    then show ?thesis by simp
  next
    case (Suc j)
    with Cons.prems have j: "j < length xs" and d: "distinct (map f xs)"
      and nx: "f x \<noteq> f (xs ! j)" by auto
    from Cons.IH[OF d j] nx Suc show ?thesis by (simp add: Let_def)
  qed
qed

lemma spliceStart_index: "i \<le> len \<Longrightarrow> spliceStart len (int i) = i"
  by (simp add: spliceStart_def)

lemma arrayMove_valid:
  assumes "s < length xs" and "d < length xs"
  shows "arrayMove xs (int s) (int d) = Some (reorderSpec xs s d)"
proof -
  have "length (take s xs @ drop (Suc s) xs) = length xs - 1" using assms(1) by simp
  then have "d \<le> length (take s xs @ drop (Suc s) xs)" using assms(2) by simp
  then have j: "spliceStart (length (take s xs @ drop (Suc s) xs)) (int d) = d"
    by (rule spliceStart_index)
  have i: "spliceStart (length xs) (int s) = s" using assms(1) by (simp add: spliceStart_index)
  show ?thesis
    unfolding arrayMove_def Let_def i using assms(1) j
    by (simp add: reorderSpec_def insertAt_def removeAt_def)
qed

lemma arrayMove_found:
  assumes "0 \<le> i" and "i < int (length xs)"
  shows "\<exists>ys. arrayMove xs i j = Some ys"
proof -
  have "spliceStart (length xs) i < length xs"
    using assms by (simp add: spliceStart_def)
  then show ?thesis by (simp add: arrayMove_def Let_def)
qed

lemma length_removeAt: "s < length xs \<Longrightarrow> length (removeAt s xs) = length xs - 1"
  by (simp add: removeAt_def)

lemma removeAt_insertAt: "d \<le> length ys \<Longrightarrow> removeAt d (insertAt d x ys) = ys"
  by (simp add: removeAt_def insertAt_def)

lemma nth_insertAt: "d \<le> length ys \<Longrightarrow> insertAt d x ys ! d = x"
  by (simp add: insertAt_def nth_append)

lemma insertAt_removeAt: "s < length xs \<Longrightarrow> insertAt s (xs ! s) (removeAt s xs) = xs"
  by (simp add: removeAt_def insertAt_def id_take_nth_drop[symmetric])

lemma reorderSpec_props:
  assumes "s < length xs" and "d < length xs"
  shows "removeAt d (reorderSpec xs s d) = removeAt s xs"
    and "reorderSpec xs s d ! d = xs ! s"
    and "length (reorderSpec xs s d) = length xs"
    and "mset (reorderSpec xs s d) = mset xs"
proof -
  have d: "d \<le> length (removeAt s xs)" using assms by (simp add: length_removeAt)
  show "removeAt d (reorderSpec xs s d) = removeAt s xs"
    unfolding reorderSpec_def by (rule removeAt_insertAt[OF d])
  show "reorderSpec xs s d ! d = xs ! s"
    unfolding reorderSpec_def by (rule nth_insertAt[OF d])
  show "length (reorderSpec xs s d) = length xs"
    using assms by (simp add: reorderSpec_def insertAt_def removeAt_def)
  have "mset (insertAt d (xs ! s) (removeAt s xs)) = add_mset (xs ! s) (mset (removeAt s xs))"
    unfolding insertAt_def
    by (metis append_take_drop_id mset.simps(2) union_mset_add_mset_right mset_append)
  also have "\<dots> = mset (insertAt s (xs ! s) (removeAt s xs))"
    unfolding insertAt_def
    by (metis append_take_drop_id mset.simps(2) union_mset_add_mset_right mset_append)
  also have "\<dots> = mset xs" by (simp add: insertAt_removeAt[OF assms(1)])
  finally show "mset (reorderSpec xs s d) = mset xs" by (simp add: reorderSpec_def)
qed

lemma reorderSpec_inverse:
  assumes "s < length xs" and "d < length xs"
  shows "reorderSpec (reorderSpec xs s d) d s = xs"
proof -
  have "reorderSpec (reorderSpec xs s d) d s =
        insertAt s (xs ! s) (removeAt s xs)"
    unfolding reorderSpec_def[of "reorderSpec xs s d"]
    by (simp add: reorderSpec_props[OF assms])
  then show ?thesis by (simp add: insertAt_removeAt[OF assms(1)])
qed

section \<open>Properties of the drag handlers\<close>

lemma columns_clearDrag [simp]: "columns (clearDrag b) = columns b"
  by (simp add: clearDrag_def columns_def baseStatuses_def)

lemma clearDrag_fields [simp]:
  "b_tasks (clearDrag b) = b_tasks b"
  "b_statuses (clearDrag b) = b_statuses b"
  "b_localStatuses (clearDrag b) = b_localStatuses b"
  by (simp_all add: clearDrag_def)

lemma handleDragEnd_reorder:
  assumes "ev_over ev = Some over"
    and "startsWith (ev_active ev) ''column-''" and "startsWith over ''column-''"
    and "stripPrefix ''column-'' (ev_active ev) \<noteq> stripPrefix ''column-'' over"
    and "findIndex (\<lambda>c. ps_id c = stripPrefix ''column-'' (ev_active ev)) (columns b) = oldIndex"
    and "findIndex (\<lambda>c. ps_id c = stripPrefix ''column-'' over) (columns b) = newIndex"
    and "oldIndex \<noteq> - 1" and "newIndex \<noteq> - 1"
    and "arrayMove (columns b) oldIndex newIndex = Some newColumns"
  shows "handleDragEnd None ev b =
         ((clearDrag b)\<lparr>b_localStatuses := newColumns\<rparr>,
          (let projectId = map_option ps_projectId (first (columns b))
           in if truthy projectId \<and> projectId \<noteq> Some []
              then Some (ReorderStatuses (the projectId) (map ps_id newColumns) (columns b))
              else None))"
  using assms by (simp add: handleDragEnd_def Let_def)

lemma truthy_iff: "truthy x = (\<exists>s. x = Some s \<and> s \<noteq> [])"
  by (cases x) auto

lemma handleDragEnd_pending_reorder:
  assumes "handleDragEnd None ev b = (b', Some (ReorderStatuses pid ids snap))"
  shows "snap = columns b \<and> ids = map ps_id (b_localStatuses b')
         \<and> b' = (clearDrag b)\<lparr>b_localStatuses := b_localStatuses b'\<rparr>
         \<and> map_option ps_projectId (first (columns b)) = Some pid \<and> pid \<noteq> []"
  using assms
  by (auto simp: handleDragEnd_def Let_def truthy_iff split: option.splits if_splits)

lemma settingsHandleDragEnd_pending:
  assumes "settingsHandleDragEnd ev s = (s', Some p)"
  shows "\<exists>ids. p = ReorderStatuses (s_projectId s) ids (s_statuses s)"
  using assms
  by (auto simp: settingsHandleDragEnd_def Let_def split: option.splits if_splits)

text \<open>
  Claim C1. When the request of a column reorder is rejected and nothing else happened in
  between, the column list shown after the \<^verbatim>\<open>catch\<close> block has run is the column list that was
  shown before the gesture, element for element. This holds for the board (\<open>columns\<close>) and for
  the settings list (\<open>s_statuses\<close>).
\<close>

theorem reorder_failure_restores_column_order:
  "(handleDragEnd None ev b = (b', Some (ReorderStatuses pid ids snap)) \<longrightarrow>
      columns (rejected (ReorderStatuses pid ids snap) b') = columns b)
   \<and> (settingsHandleDragEnd ev' s = (s', Some p) \<longrightarrow>
      s_statuses (settingsRejected p s') = s_statuses s)"
proof (intro conjI impI)
  assume h: "handleDragEnd None ev b = (b', Some (ReorderStatuses pid ids snap))"
  note f = handleDragEnd_pending_reorder[OF h]
  have "b_statuses b' = b_statuses b"
    by (subst conjunct1[OF conjunct2[OF conjunct2[OF f]]]) simp
  then show "columns (rejected (ReorderStatuses pid ids snap) b') = columns b"
    using f by (intro columns_restore) simp_all
next
  assume "settingsHandleDragEnd ev' s = (s', Some p)"
  from settingsHandleDragEnd_pending[OF this]
  show "s_statuses (settingsRejected p s') = s_statuses s" by auto
qed

lemma columns_abcdBoard: "columns abcdBoard = abcdColumns"
  by (simp add: abcdBoard_def mountBoard_def setStatuses_def columns_def baseStatuses_def
        abcdColumns_def)

lemma arrayMove_abcd_0_2:
  "arrayMove abcdColumns 0 2 =
     Some [mkStatus ''B'' ''p1'' ''b'' 1, mkStatus ''C'' ''p1'' ''c'' 2, mkStatus ''A'' ''p1'' ''a'' 0,
           mkStatus ''D'' ''p1'' ''d'' 3]"
  by (simp add: arrayMove_def spliceStart_def abcdColumns_def Let_def)

lemma handleDragEnd_abcd:
  "handleDragEnd None dragAC abcdBoard =
     ((clearDrag abcdBoard)\<lparr>b_localStatuses :=
          [mkStatus ''B'' ''p1'' ''b'' 1, mkStatus ''C'' ''p1'' ''c'' 2, mkStatus ''A'' ''p1'' ''a'' 0,
           mkStatus ''D'' ''p1'' ''d'' 3]\<rparr>,
      Some (ReorderStatuses ''p1'' [''B'', ''C'', ''A'', ''D''] abcdColumns))"
proof -
  have i: "findIndex (\<lambda>c. ps_id c = ''A'') abcdColumns = 0"
          "findIndex (\<lambda>c. ps_id c = ''C'') abcdColumns = 2"
    by (simp_all add: abcdColumns_def mkStatus_def)
  have p: "map_option ps_projectId (first abcdColumns) = Some ''p1''"
    by (simp add: abcdColumns_def mkStatus_def first_def)
  show ?thesis
    by (subst handleDragEnd_reorder[where over = "''column-C''" and oldIndex = 0 and newIndex = 2,
          OF _ _ _ _ _ _ _ _ arrayMove_abcd_0_2[unfolded columns_abcdBoard[symmetric]]])
       (simp_all add: dragAC_def startsWith_def stripPrefix_def columns_abcdBoard i p mkStatus_def)
qed


lemma handleDragEnd_dragAC: "handleDragEnd None dragAC abcdBoard = (boardAfterAC, Some pendingAC)"
  by (simp add: handleDragEnd_abcd boardAfterAC_def pendingAC_def bcadColumns_def)

lemma columns_boardAfterAC: "columns boardAfterAC = bcadColumns"
  by (simp add: boardAfterAC_def clearDrag_def abcdBoard_def mountBoard_def setStatuses_def
        columns_def baseStatuses_def abcdColumns_def bcadColumns_def first_def mkStatus_def)

lemma handleDragEnd_dragBD: "handleDragEnd None dragBD boardAfterAC = (boardAfterBD, Some pendingBD)"
proof -
  have i: "findIndex (\<lambda>c. ps_id c = ''B'') bcadColumns = 0"
          "findIndex (\<lambda>c. ps_id c = ''D'') bcadColumns = 3"
    by (simp_all add: bcadColumns_def mkStatus_def)
  have p: "map_option ps_projectId (first bcadColumns) = Some ''p1''"
    by (simp add: bcadColumns_def mkStatus_def first_def)
  have m: "arrayMove (columns boardAfterAC) 0 3 = Some cadbColumns"
    by (simp add: columns_boardAfterAC arrayMove_def spliceStart_def bcadColumns_def
          cadbColumns_def Let_def)
  show ?thesis
    by (subst handleDragEnd_reorder[where over = "''column-D''" and oldIndex = 0 and newIndex = 3,
          OF _ _ _ _ _ _ _ _ m])
       (simp_all add: dragBD_def startsWith_def stripPrefix_def columns_boardAfterAC i p
          boardAfterBD_def pendingBD_def cadbColumns_def mkStatus_def)
qed

lemma columns_boardAfterBD: "columns boardAfterBD = cadbColumns"
  by (simp add: boardAfterBD_def boardAfterAC_def clearDrag_def abcdBoard_def mountBoard_def
        setStatuses_def columns_def baseStatuses_def abcdColumns_def cadbColumns_def first_def
        mkStatus_def)

lemma settingsHandleDragEnd_dragAC:
  "settingsHandleDragEnd settingsDragAC abcdSettings = (settingsAfterAC, Some pendingAC)"
proof -
  have i: "findIndex (\<lambda>c. ps_id c = ''A'') abcdColumns = 0"
          "findIndex (\<lambda>c. ps_id c = ''C'') abcdColumns = 2"
    by (simp_all add: abcdColumns_def mkStatus_def)
  show ?thesis
    by (simp add: settingsHandleDragEnd_def settingsDragAC_def abcdSettings_def i
          arrayMove_abcd_0_2 bcadColumns_def pendingAC_def mkStatus_def settingsAfterAC_def)
qed

lemma settingsHandleDragEnd_dragBD:
  "settingsHandleDragEnd settingsDragBD settingsAfterAC = (settingsAfterBD, Some pendingBD)"
proof -
  have i: "findIndex (\<lambda>c. ps_id c = ''B'') bcadColumns = 0"
          "findIndex (\<lambda>c. ps_id c = ''D'') bcadColumns = 3"
    by (simp_all add: bcadColumns_def mkStatus_def)
  have m: "arrayMove bcadColumns 0 3 = Some cadbColumns"
    by (simp add: arrayMove_def spliceStart_def bcadColumns_def cadbColumns_def Let_def)
  show ?thesis
    by (simp add: settingsHandleDragEnd_def settingsDragBD_def settingsAfterAC_def
          settingsAfterBD_def abcdSettings_def i m pendingBD_def cadbColumns_def mkStatus_def)
qed

theorem reorder_failure_restores_column_order_witness:
  "handleDragEnd None dragAC abcdBoard = (boardAfterAC, Some pendingAC)
   \<and> columns boardAfterAC = bcadColumns
   \<and> columns (rejected pendingAC boardAfterAC) = abcdColumns
   \<and> settingsHandleDragEnd settingsDragAC abcdSettings = (settingsAfterAC, Some pendingAC)
   \<and> s_statuses settingsAfterAC = bcadColumns
   \<and> s_statuses (settingsRejected pendingAC settingsAfterAC) = abcdColumns"
  using reorder_failure_restores_column_order[of dragAC abcdBoard boardAfterAC "''p1''"
          "[''B'', ''C'', ''A'', ''D'']" abcdColumns settingsDragAC abcdSettings
          settingsAfterAC pendingAC]
    handleDragEnd_dragAC settingsHandleDragEnd_dragAC columns_boardAfterAC columns_abcdBoard
  by (simp add: pendingAC_def abcdSettings_def settingsAfterAC_def)

text \<open>
  Claim C3, as stated, fails. On the board of project \<open>p1\<close> with columns A, B, C, D: column A is
  dragged onto C (order B, C, A, D, request pending), then B is dragged onto D (order C, A, D, B),
  then the first request is rejected. The \<^verbatim>\<open>catch\<close> block of the first gesture stores the
  column list it closed over: the board shows A, B, C, D, not the order of the later reorder.
\<close>

theorem stale_revert_replaces_later_order_counterexample:
  "handleDragEnd None dragAC abcdBoard = (boardAfterAC, Some pendingAC)
   \<and> handleDragEnd None dragBD boardAfterAC = (boardAfterBD, Some pendingBD)
   \<and> map ps_id (columns boardAfterBD) = [''C'', ''A'', ''D'', ''B'']
   \<and> map ps_id (columns (rejected pendingAC boardAfterBD)) = [''A'', ''B'', ''C'', ''D'']"
proof -
  have "columns (rejected pendingAC boardAfterBD) = abcdColumns"
    by (simp add: pendingAC_def boardAfterBD_def boardAfterAC_def clearDrag_def abcdBoard_def
          mountBoard_def setStatuses_def columns_def baseStatuses_def abcdColumns_def first_def
          mkStatus_def)
  then show ?thesis
    by (simp add: handleDragEnd_dragAC handleDragEnd_dragBD columns_boardAfterBD cadbColumns_def
          abcdColumns_def mkStatus_def)
qed

text \<open>
  Claim C3, amended. When a second column reorder has been applied before the request of a
  prior reorder is settled, a rejection of the prior request restores the column order that was
  shown before the prior reorder, replacing the order of the later reorder; when the prior
  request is fulfilled, the order of the later reorder stays. The settings list restores its
  list in the same way.
\<close>

theorem stale_revert_restores_snapshot:
  "(handleDragEnd None ev1 b = (b1, Some (ReorderStatuses pid1 ids1 snap1))
     \<and> handleDragEnd None ev2 b1 = (b2, Some (ReorderStatuses pid2 ids2 snap2)) \<longrightarrow>
       columns (rejected (ReorderStatuses pid1 ids1 snap1) b2) = columns b
       \<and> columns (fulfilled (ReorderStatuses pid1 ids1 snap1) b2) = columns b2)
   \<and> (settingsHandleDragEnd ev1' s = (s1, Some p1) \<and> settingsHandleDragEnd ev2' s1 = (s2, Some p2) \<longrightarrow>
       s_statuses (settingsRejected p1 s2) = s_statuses s)"
proof (intro conjI impI)
  assume h: "handleDragEnd None ev1 b = (b1, Some (ReorderStatuses pid1 ids1 snap1))
     \<and> handleDragEnd None ev2 b1 = (b2, Some (ReorderStatuses pid2 ids2 snap2))"
  note f1 = handleDragEnd_pending_reorder[OF conjunct1[OF h]]
  note f2 = handleDragEnd_pending_reorder[OF conjunct2[OF h]]
  have "b_statuses b1 = b_statuses b"
    by (subst conjunct1[OF conjunct2[OF conjunct2[OF f1]]]) simp
  moreover have "b_statuses b2 = b_statuses b1"
    by (subst conjunct1[OF conjunct2[OF conjunct2[OF f2]]]) simp
  ultimately have "b_statuses b2 = b_statuses b" by simp
  then show "columns (rejected (ReorderStatuses pid1 ids1 snap1) b2) = columns b"
    using f1 by (intro columns_restore) simp_all
  show "columns (fulfilled (ReorderStatuses pid1 ids1 snap1) b2) = columns b2"
    by (simp add: fulfilled_def)
next
  assume h: "settingsHandleDragEnd ev1' s = (s1, Some p1) \<and> settingsHandleDragEnd ev2' s1 = (s2, Some p2)"
  from settingsHandleDragEnd_pending[OF conjunct1[OF h]]
  show "s_statuses (settingsRejected p1 s2) = s_statuses s" by auto
qed

theorem stale_revert_restores_snapshot_witness:
  "handleDragEnd None dragAC abcdBoard = (boardAfterAC, Some pendingAC)
   \<and> handleDragEnd None dragBD boardAfterAC = (boardAfterBD, Some pendingBD)
   \<and> columns (rejected pendingAC boardAfterBD) = abcdColumns
   \<and> columns (fulfilled pendingAC boardAfterBD) = cadbColumns
   \<and> settingsHandleDragEnd settingsDragAC abcdSettings = (settingsAfterAC, Some pendingAC)
   \<and> settingsHandleDragEnd settingsDragBD settingsAfterAC = (settingsAfterBD, Some pendingBD)
   \<and> s_statuses settingsAfterBD = cadbColumns
   \<and> s_statuses (settingsRejected pendingAC settingsAfterBD) = abcdColumns"
  using stale_revert_restores_snapshot[of dragAC abcdBoard boardAfterAC "''p1''"
          "[''B'', ''C'', ''A'', ''D'']" abcdColumns dragBD boardAfterBD "''p1''"
          "[''C'', ''A'', ''D'', ''B'']" bcadColumns settingsDragAC abcdSettings settingsAfterAC
          pendingAC settingsDragBD settingsAfterBD pendingBD]
    handleDragEnd_dragAC handleDragEnd_dragBD columns_abcdBoard columns_boardAfterBD
    settingsHandleDragEnd_dragAC settingsHandleDragEnd_dragBD
  by (simp add: pendingAC_def pendingBD_def abcdSettings_def settingsAfterBD_def)

lemma arrayMove_mset:
  assumes "arrayMove xs i j = Some ys"
  shows "mset ys = mset xs"
proof -
  define k where "k = spliceStart (length xs) i"
  define rest where "rest = take k xs @ drop (Suc k) xs"
  define m where "m = spliceStart (length rest) (if j < 0 then int (length xs) + j else j)"
  from assms have k: "k < length xs" and ys: "ys = take m rest @ xs ! k # drop m rest"
    by (auto simp: arrayMove_def Let_def k_def rest_def m_def split: if_splits)
  have "mset ys = add_mset (xs ! k) (mset rest)"
    unfolding ys
    by (metis append_take_drop_id mset.simps(2) union_mset_add_mset_right mset_append)
  also have "\<dots> = add_mset (xs ! k) (mset (take k xs) + mset (drop (Suc k) xs))"
    by (simp add: rest_def)
  also have "\<dots> = mset (take k xs @ xs ! k # drop (Suc k) xs)" by simp
  also have "\<dots> = mset xs" using k by (simp add: id_take_nth_drop[symmetric])
  finally show ?thesis .
qed

lemma columns_local:
  assumes "b_statuses b' = b_statuses b" and "b_localStatuses b' = new" and "new \<noteq> []"
    and "map_option ps_projectId (first new) = map_option ps_projectId (first (columns b))"
  shows "columns b' = new"
proof -
  have "baseStatuses b' = baseStatuses b" using assms(1) by (simp add: baseStatuses_def)
  then show ?thesis
    using assms(2-4) first_projectId_columns[of b] by (simp add: columns_alt[of b'])
qed

lemma first_projectId_same_project:
  assumes "\<forall>c \<in> set xs. ps_projectId c = pid" and "xs \<noteq> []"
  shows "map_option ps_projectId (first xs) = Some pid"
  using assms by (cases xs) (auto simp: first_def)

lemma columns_after_move:
  assumes "\<forall>c \<in> set (columns b). ps_projectId c = pid" and "mset new = mset (columns b)"
  shows "columns ((clearDrag b)\<lparr>b_localStatuses := new\<rparr>) = new"
proof -
  have s: "set new = set (columns b)" using assms(2) by (metis set_mset_mset)
  have ne: "new \<noteq> []" using s columns_nonempty[of b] by auto
  have a: "map_option ps_projectId (first new) = Some pid"
    using assms(1) s ne by (intro first_projectId_same_project) auto
  have c: "map_option ps_projectId (first (columns b)) = Some pid"
    using assms(1) columns_nonempty by (intro first_projectId_same_project) auto
  have eq: "map_option ps_projectId (first new) = map_option ps_projectId (first (columns b))"
    by (simp only: a c)
  show ?thesis
    by (rule columns_local[OF _ _ ne eq]) simp_all
qed

lemma nth_ps_id_neq:
  assumes "distinct (map ps_id xs)" and "s < length xs" and "d < length xs" and "s \<noteq> d"
  shows "ps_id (xs ! s) \<noteq> ps_id (xs ! d)"
  using assms by (metis distinct_conv_nth length_map nth_map)

lemma reorderColumns_eq:
  assumes "distinct (map ps_id (columns b))" and "s < length (columns b)"
    and "d < length (columns b)" and "s \<noteq> d"
  shows "reorderColumns s d b =
         ((clearDrag b)\<lparr>b_localStatuses := reorderSpec (columns b) s d\<rparr>,
          (let projectId = map_option ps_projectId (first (columns b))
           in if truthy projectId \<and> projectId \<noteq> Some []
              then Some (ReorderStatuses (the projectId) (map ps_id (reorderSpec (columns b) s d))
                           (columns b))
              else None))"
  unfolding reorderColumns_def
  by (rule handleDragEnd_reorder[where over = "''column-'' @ ps_id (columns b ! d)"
        and oldIndex = "int s" and newIndex = "int d"])
     (use assms in \<open>simp_all add: columnDragEvent_def startsWith_def stripPrefix_def
        findIndex_nth arrayMove_valid nth_ps_id_neq\<close>)

lemma settingsReorder_eq:
  assumes "distinct (map ps_id (s_statuses st))" and "s < length (s_statuses st)"
    and "d < length (s_statuses st)" and "s \<noteq> d"
  shows "settingsReorder s d st =
         (st\<lparr>s_statuses := reorderSpec (s_statuses st) s d, s_error := None\<rparr>,
          Some (ReorderStatuses (s_projectId st) (map ps_id (reorderSpec (s_statuses st) s d))
                  (s_statuses st)))"
  using assms
  by (simp add: settingsReorder_def settingsHandleDragEnd_def settingsDragEvent_def Let_def
        findIndex_nth arrayMove_valid nth_ps_id_neq)

text \<open>
  Claim C5. On indices of the list, the move that the reorder handlers apply is the move of the
  spec: the element at the source index is removed and reinserted at the destination index. The
  moved element is at the destination afterwards, and without it the list is the original list
  without it, so all other elements keep their relative order. Dragging the column at index \<open>s\<close>
  onto the column at index \<open>d\<close> stores this order, on the board and in the settings list
  (column identifiers are distinct). For the columns A, B, C, D the move from 0 to 2 gives
  B, C, A, D.
\<close>

theorem reorder_moves_single_element:
  "(s < length xs \<and> d < length xs \<longrightarrow>
      arrayMove xs (int s) (int d) = Some (reorderSpec xs s d)
      \<and> reorderSpec xs s d ! d = xs ! s
      \<and> removeAt d (reorderSpec xs s d) = removeAt s xs)
   \<and> (distinct (map ps_id (columns b)) \<and> s < length (columns b) \<and> d < length (columns b) \<and> s \<noteq> d \<longrightarrow>
      b_localStatuses (fst (reorderColumns s d b)) = reorderSpec (columns b) s d)
   \<and> (distinct (map ps_id (s_statuses st)) \<and> s < length (s_statuses st)
        \<and> d < length (s_statuses st) \<and> s \<noteq> d \<longrightarrow>
      s_statuses (fst (settingsReorder s d st)) = reorderSpec (s_statuses st) s d)"
  by (simp add: arrayMove_valid reorderSpec_props reorderColumns_eq settingsReorder_eq)

lemma distinct_abcd: "distinct (map ps_id abcdColumns)"
  by (simp add: abcdColumns_def mkStatus_def)

lemma reorderSpec_abcd: "reorderSpec abcdColumns 0 2 = bcadColumns"
  by (simp add: reorderSpec_def insertAt_def removeAt_def abcdColumns_def bcadColumns_def
        numeral_2_eq_2)

theorem reorder_moves_single_element_witness:
  "(0::nat) < length abcdColumns \<and> (2::nat) < length abcdColumns
   \<and> distinct (map ps_id (columns abcdBoard)) \<and> distinct (map ps_id (s_statuses abcdSettings))
   \<and> map ps_id abcdColumns = [''A'', ''B'', ''C'', ''D'']
   \<and> map_option (map ps_id) (arrayMove abcdColumns 0 2) = Some [''B'', ''C'', ''A'', ''D'']
   \<and> map ps_id (b_localStatuses (fst (reorderColumns 0 2 abcdBoard))) = [''B'', ''C'', ''A'', ''D'']
   \<and> map ps_id (s_statuses (fst (settingsReorder 0 2 abcdSettings))) = [''B'', ''C'', ''A'', ''D'']"
proof -
  have l: "length abcdColumns = 4" by (simp add: abcdColumns_def)
  have s: "s_statuses abcdSettings = abcdColumns" by (simp add: abcdSettings_def)
  have i: "map ps_id abcdColumns = [''A'', ''B'', ''C'', ''D'']"
          "map ps_id bcadColumns = [''B'', ''C'', ''A'', ''D'']"
    by (simp_all add: abcdColumns_def bcadColumns_def mkStatus_def)
  show ?thesis
    using reorder_moves_single_element[of 0 abcdColumns 2 abcdBoard abcdSettings]
    by (simp add: l s i columns_abcdBoard distinct_abcd reorderSpec_abcd)
qed

lemma distinct_reorderSpec:
  assumes "distinct (map f xs)" and "s < length xs" and "d < length xs"
  shows "distinct (map f (reorderSpec xs s d))"
proof -
  have "mset (map f (reorderSpec xs s d)) = mset (map f xs)"
    using reorderSpec_props(4)[OF assms(2,3)] by (metis mset_map)
  then show ?thesis using assms(1) by (metis mset_eq_imp_distinct_iff)
qed

lemma columns_reorderColumns:
  assumes "distinct (map ps_id (columns b))" and "s < length (columns b)"
    and "d < length (columns b)" and "s \<noteq> d"
    and "\<forall>c \<in> set (columns b). ps_projectId c = pid"
  shows "columns (fst (reorderColumns s d b)) = reorderSpec (columns b) s d"
  by (simp add: reorderColumns_eq[OF assms(1-4)]
        columns_after_move[OF assms(5) reorderSpec_props(4)[OF assms(2,3)]])

text \<open>
  Claim C6. For indices \<open>s\<close> and \<open>d\<close> of the list, moving the element at \<open>s\<close> to \<open>d\<close> and then
  moving the element at \<open>d\<close> (where the moved element now is) back to \<open>s\<close> gives the original
  list. On the board of one project with distinct column identifiers, dragging the column at
  \<open>s\<close> onto the column at \<open>d\<close> and then the column now at \<open>d\<close> onto the column now at \<open>s\<close>
  shows the original column order again.
\<close>

theorem reorder_then_inverse_restores_order:
  "(s < length xs \<and> d < length xs \<longrightarrow>
      Option.bind (arrayMove xs (int s) (int d)) (\<lambda>ys. arrayMove ys (int d) (int s)) = Some xs)
   \<and> (distinct (map ps_id (columns b)) \<and> s < length (columns b) \<and> d < length (columns b)
        \<and> s \<noteq> d \<and> (\<forall>c \<in> set (columns b). ps_projectId c = pid) \<longrightarrow>
      columns (fst (reorderColumns d s (fst (reorderColumns s d b)))) = columns b)"
proof (intro conjI impI)
  assume h: "s < length xs \<and> d < length xs"
  then have l: "d < length (reorderSpec xs s d)" "s < length (reorderSpec xs s d)"
    by (simp_all add: reorderSpec_props)
  from h show "Option.bind (arrayMove xs (int s) (int d)) (\<lambda>ys. arrayMove ys (int d) (int s)) = Some xs"
    by (simp add: arrayMove_valid arrayMove_valid[OF l] reorderSpec_inverse)
next
  assume h: "distinct (map ps_id (columns b)) \<and> s < length (columns b) \<and> d < length (columns b)
        \<and> s \<noteq> d \<and> (\<forall>c \<in> set (columns b). ps_projectId c = pid)"
  define b1 where "b1 = fst (reorderColumns s d b)"
  from h have c1: "columns b1 = reorderSpec (columns b) s d"
    unfolding b1_def by (intro columns_reorderColumns) auto
  have d1: "distinct (map ps_id (columns b1))"
    unfolding c1 using h by (intro distinct_reorderSpec) auto
  have l1: "d < length (columns b1)" "s < length (columns b1)"
    using h by (simp_all add: c1 reorderSpec_props)
  have "set (columns b1) = set (columns b)"
    using h reorderSpec_props(4)[of s "columns b" d] unfolding c1 by (metis set_mset_mset)
  then have p1: "\<forall>c \<in> set (columns b1). ps_projectId c = pid" using h by simp
  have "columns (fst (reorderColumns d s b1)) = reorderSpec (columns b1) d s"
    using h by (intro columns_reorderColumns[OF d1 l1 _ p1]) auto
  also have "\<dots> = columns b"
    unfolding c1 using h by (intro reorderSpec_inverse) auto
  finally show "columns (fst (reorderColumns d s (fst (reorderColumns s d b)))) = columns b"
    unfolding b1_def .
qed

lemma same_project_abcd: "\<forall>c \<in> set abcdColumns. ps_projectId c = ''p1''"
  by (simp add: abcdColumns_def mkStatus_def)

theorem reorder_then_inverse_restores_order_witness:
  "(0::nat) < length abcdColumns \<and> (2::nat) < length abcdColumns
   \<and> distinct (map ps_id (columns abcdBoard))
   \<and> list_all (\<lambda>c. ps_projectId c = ''p1'') (columns abcdBoard)
   \<and> arrayMove abcdColumns 0 2 = Some bcadColumns
   \<and> arrayMove bcadColumns 2 0 = Some abcdColumns
   \<and> columns (fst (reorderColumns 0 2 abcdBoard)) = bcadColumns
   \<and> columns (fst (reorderColumns 2 0 (fst (reorderColumns 0 2 abcdBoard)))) = abcdColumns"
proof -
  have l: "length abcdColumns = 4" by (simp add: abcdColumns_def)
  have m: "arrayMove abcdColumns 0 2 = Some bcadColumns"
    using arrayMove_valid[of 0 abcdColumns 2] by (simp add: l reorderSpec_abcd)
  have c: "columns (fst (reorderColumns 0 2 abcdBoard)) = bcadColumns"
    using columns_reorderColumns[of abcdBoard 0 2 "''p1''"]
    by (simp add: columns_abcdBoard distinct_abcd same_project_abcd l reorderSpec_abcd)
  show ?thesis
    using reorder_then_inverse_restores_order[of 0 abcdColumns 2 abcdBoard "''p1''"]
    by (simp add: l m c columns_abcdBoard distinct_abcd same_project_abcd list_all_iff)
qed

text \<open>
  Claim C9. While the project identifier of the first column is the empty string, no drag ever
  issues a reorder request; a reorder of columns stores the new order in the local state and
  issues nothing, so there is no request that could be rejected and no revert. When all columns
  have the empty project identifier (the built-in columns), the new order is the one shown.
\<close>

theorem reorder_without_project_is_local_only:
  "(map_option ps_projectId (first (columns b)) = Some [] \<longrightarrow>
      (\<forall>pid ids snap. snd (handleDragEnd None ev b) \<noteq> Some (ReorderStatuses pid ids snap)))
   \<and> (map_option ps_projectId (first (columns b)) = Some []
        \<and> distinct (map ps_id (columns b)) \<and> s < length (columns b) \<and> d < length (columns b)
        \<and> s \<noteq> d \<longrightarrow>
      reorderColumns s d b = ((clearDrag b)\<lparr>b_localStatuses := reorderSpec (columns b) s d\<rparr>, None))
   \<and> ((\<forall>c \<in> set (columns b). ps_projectId c = [])
        \<and> distinct (map ps_id (columns b)) \<and> s < length (columns b) \<and> d < length (columns b)
        \<and> s \<noteq> d \<longrightarrow>
      columns (fst (reorderColumns s d b)) = reorderSpec (columns b) s d
      \<and> snd (reorderColumns s d b) = None)"
proof (intro conjI impI allI)
  fix pid ids snap
  assume e: "map_option ps_projectId (first (columns b)) = Some []"
  show "snd (handleDragEnd None ev b) \<noteq> Some (ReorderStatuses pid ids snap)"
  proof
    assume "snd (handleDragEnd None ev b) = Some (ReorderStatuses pid ids snap)"
    then have "handleDragEnd None ev b = (fst (handleDragEnd None ev b), Some (ReorderStatuses pid ids snap))"
      by (metis prod.collapse)
    from handleDragEnd_pending_reorder[OF this] e show False by auto
  qed
next
  assume h: "map_option ps_projectId (first (columns b)) = Some []
        \<and> distinct (map ps_id (columns b)) \<and> s < length (columns b) \<and> d < length (columns b)
        \<and> s \<noteq> d"
  then show "reorderColumns s d b = ((clearDrag b)\<lparr>b_localStatuses := reorderSpec (columns b) s d\<rparr>, None)"
    by (simp add: reorderColumns_eq)
next
  assume h: "(\<forall>c \<in> set (columns b). ps_projectId c = [])
        \<and> distinct (map ps_id (columns b)) \<and> s < length (columns b) \<and> d < length (columns b)
        \<and> s \<noteq> d"
  then show "columns (fst (reorderColumns s d b)) = reorderSpec (columns b) s d"
    by (intro columns_reorderColumns[where pid = "[]"]) auto
  have "map_option ps_projectId (first (columns b)) = Some []"
    using h columns_nonempty by (intro first_projectId_same_project) auto
  with h show "snd (reorderColumns s d b) = None"
    by (simp add: reorderColumns_eq)
qed


lemma columns_defaultBoard: "columns defaultBoard = DEFAULT_STATUSES"
  by (simp add: defaultBoard_def mountBoard_def setStatuses_def columns_def baseStatuses_def)

lemma DEFAULT_STATUSES_facts:
  "length DEFAULT_STATUSES = 4"
  "map ps_id DEFAULT_STATUSES = [''todo'', ''in_progress'', ''in_review'', ''done'']"
  "map ps_slug DEFAULT_STATUSES = [''todo'', ''in_progress'', ''in_review'', ''done'']"
  "map ps_position DEFAULT_STATUSES = [0, 1, 2, 3]"
  "map ps_isDone DEFAULT_STATUSES = [0, 0, 0, 1]"
  "map ps_projectId DEFAULT_STATUSES = [[], [], [], []]"
  by (simp_all add: DEFAULT_STATUSES_def)

lemma DEFAULT_STATUSES_project: "\<forall>c \<in> set DEFAULT_STATUSES. ps_projectId c = []"
  by (simp add: DEFAULT_STATUSES_def)

lemma DEFAULT_STATUSES_distinct: "distinct (map ps_id DEFAULT_STATUSES)"
  by (simp add: DEFAULT_STATUSES_facts)

lemma reorderSpec_DEFAULT:
  "map ps_slug (reorderSpec DEFAULT_STATUSES 0 (Suc 0)) =
     [''in_progress'', ''todo'', ''in_review'', ''done'']"
  by (simp add: reorderSpec_def insertAt_def removeAt_def DEFAULT_STATUSES_def)

theorem reorder_without_project_is_local_only_witness:
  "map_option ps_projectId (first (columns defaultBoard)) = Some []
   \<and> list_all (\<lambda>c. ps_projectId c = []) (columns defaultBoard)
   \<and> distinct (map ps_id (columns defaultBoard))
   \<and> (0::nat) < length (columns defaultBoard) \<and> (1::nat) < length (columns defaultBoard)
   \<and> snd (reorderColumns 0 1 defaultBoard) = None
   \<and> map ps_slug (columns (fst (reorderColumns 0 1 defaultBoard))) =
       [''in_progress'', ''todo'', ''in_review'', ''done'']"
proof -
  have f: "map_option ps_projectId (first (columns defaultBoard)) = Some []"
    by (simp add: columns_defaultBoard DEFAULT_STATUSES_def first_def)
  have h: "(\<forall>c \<in> set (columns defaultBoard). ps_projectId c = [])
           \<and> distinct (map ps_id (columns defaultBoard))
           \<and> (0::nat) < length (columns defaultBoard) \<and> (1::nat) < length (columns defaultBoard)
           \<and> (0::nat) \<noteq> 1"
    by (simp add: columns_defaultBoard DEFAULT_STATUSES_project DEFAULT_STATUSES_distinct
          DEFAULT_STATUSES_facts(1))
  from reorder_without_project_is_local_only[of defaultBoard
         "columnDragEvent (columns defaultBoard) 0 1" 0 1] h
  have r: "columns (fst (reorderColumns 0 1 defaultBoard)) = reorderSpec (columns defaultBoard) 0 1
           \<and> snd (reorderColumns 0 1 defaultBoard) = None"
    by blast
  show ?thesis
    using f h r by (simp add: columns_defaultBoard reorderSpec_DEFAULT list_all_iff)
qed

text \<open>
  Claim C8, as stated, fails. The board is mounted with an empty status list and the first
  built-in column is dragged onto the second. The status list is still empty, and the board now
  shows in_progress, todo, in_review, done: the locally stored order, not the built-in order.
\<close>

theorem empty_statuses_after_local_reorder_counterexample:
  "b_statuses (fst (reorderColumns 0 1 defaultBoard)) = []
   \<and> map ps_slug (columns (fst (reorderColumns 0 1 defaultBoard))) =
       [''in_progress'', ''todo'', ''in_review'', ''done'']
   \<and> columns (fst (reorderColumns 0 1 defaultBoard)) \<noteq> DEFAULT_STATUSES"
proof -
  have r: "reorderColumns 0 (Suc 0) defaultBoard =
           ((clearDrag defaultBoard)\<lparr>b_localStatuses := reorderSpec DEFAULT_STATUSES 0 (Suc 0)\<rparr>, None)"
    using reorderColumns_eq[of defaultBoard 0 "Suc 0"]
    by (simp add: columns_defaultBoard DEFAULT_STATUSES_distinct DEFAULT_STATUSES_facts(1)
          DEFAULT_STATUSES_def first_def)
  have c: "columns (fst (reorderColumns 0 (Suc 0) defaultBoard)) =
           reorderSpec DEFAULT_STATUSES 0 (Suc 0)"
    using columns_reorderColumns[of defaultBoard 0 "Suc 0" "[]"]
    by (simp add: columns_defaultBoard DEFAULT_STATUSES_distinct DEFAULT_STATUSES_facts(1)
          DEFAULT_STATUSES_project)
  have "b_statuses defaultBoard = []"
    by (simp add: defaultBoard_def mountBoard_def setStatuses_def)
  then have s: "b_statuses (fst (reorderColumns 0 (Suc 0) defaultBoard)) = []"
    by (simp add: r)
  have "map ps_slug (columns (fst (reorderColumns 0 (Suc 0) defaultBoard))) \<noteq>
        map ps_slug DEFAULT_STATUSES"
    by (simp add: c reorderSpec_DEFAULT DEFAULT_STATUSES_facts)
  then have n: "columns (fst (reorderColumns 0 (Suc 0) defaultBoard)) \<noteq> DEFAULT_STATUSES"
    by auto
  show ?thesis
    using s n by (simp add: c reorderSpec_DEFAULT)
qed

text \<open>
  Claim C8, amended. With an empty status list the board shows either the built-in columns or
  the locally stored list. It shows exactly the four built-in columns (slugs todo, in_progress,
  in_review, done; positions 0 to 3; only done counts as complete) when no local order applies:
  the local list is empty, as at the first render, or the project identifier of its first
  column is not the empty string.
\<close>

theorem empty_statuses_use_default_columns:
  "(b_statuses b = []
      \<and> (b_localStatuses b = [] \<or> map_option ps_projectId (first (b_localStatuses b)) \<noteq> Some []) \<longrightarrow>
      columns b = DEFAULT_STATUSES)
   \<and> (b_statuses b = [] \<longrightarrow> columns b = DEFAULT_STATUSES \<or> columns b = b_localStatuses b)
   \<and> columns (mountBoard tasks []) = DEFAULT_STATUSES
   \<and> map ps_slug DEFAULT_STATUSES = [''todo'', ''in_progress'', ''in_review'', ''done'']
   \<and> map ps_position DEFAULT_STATUSES = [0, 1, 2, 3]
   \<and> map (\<lambda>c. ps_isDone c = 1) DEFAULT_STATUSES = [False, False, False, True]"
proof -
  have f: "map_option ps_projectId (first DEFAULT_STATUSES) = Some []"
    by (simp add: DEFAULT_STATUSES_def first_def)
  have 1: "b_statuses b = []
      \<and> (b_localStatuses b = [] \<or> map_option ps_projectId (first (b_localStatuses b)) \<noteq> Some []) \<longrightarrow>
      columns b = DEFAULT_STATUSES"
    by (auto simp: columns_def baseStatuses_def f)
  have 2: "b_statuses b = [] \<longrightarrow> columns b = DEFAULT_STATUSES \<or> columns b = b_localStatuses b"
    by (auto simp: columns_def baseStatuses_def)
  have 3: "columns (mountBoard tasks []) = DEFAULT_STATUSES"
    by (simp add: mountBoard_def setStatuses_def columns_def baseStatuses_def)
  have 4: "map (\<lambda>c. ps_isDone c = 1) DEFAULT_STATUSES = [False, False, False, True]"
    by (simp add: DEFAULT_STATUSES_def)
  show ?thesis
    using 1 2 3 4 DEFAULT_STATUSES_facts(3,4) by blast
qed

theorem empty_statuses_use_default_columns_witness:
  "b_statuses defaultBoard = [] \<and> b_localStatuses defaultBoard = []
   \<and> columns defaultBoard = DEFAULT_STATUSES
   \<and> map ps_slug (columns defaultBoard) = [''todo'', ''in_progress'', ''in_review'', ''done'']"
proof -
  have h: "b_statuses defaultBoard = [] \<and> b_localStatuses defaultBoard = []"
    by (simp add: defaultBoard_def mountBoard_def setStatuses_def)
  from empty_statuses_use_default_columns[of defaultBoard "[]"] h
  have "columns defaultBoard = DEFAULT_STATUSES
        \<and> map ps_slug DEFAULT_STATUSES = [''todo'', ''in_progress'', ''in_review'', ''done'']"
    by blast
  with h show ?thesis by simp
qed

section \<open>Properties of the card move\<close>

lemma matchingStatusId_in:
  "matchingStatusId cols task = Some k \<Longrightarrow> k \<in> ps_id ` set cols"
  by (auto simp: matchingStatusId_def find_Some_iff)

lemma currentStatusId_effective:
  assumes "currentStatusId cols task = Some k" and "k \<noteq> []" and "k \<in> ps_id ` set cols"
  shows "effectiveColumn cols task = k"
proof (cases "truthy (t_statusId task)")
  case True
  with assms show ?thesis
    by (simp add: currentStatusId_def effectiveColumn_def groupStatusId_def)
next
  case False
  with assms(1) have "js_or (matchingStatusId cols task) None = Some k"
    by (simp add: currentStatusId_def)
  then have "matchingStatusId cols task = Some k"
    by (auto simp: js_or_def split: if_splits)
  with False assms(2,3) show ?thesis
    by (simp add: effectiveColumn_def groupStatusId_def js_or_def)
qed

lemma currentStatusId_resolved:
  "truthy (t_statusId task) \<Longrightarrow> the (t_statusId task) \<in> ps_id ` set cols \<Longrightarrow>
     currentStatusId cols task = Some (effectiveColumn cols task)"
  "\<not> truthy (t_statusId task) \<Longrightarrow> truthy (matchingStatusId cols task) \<Longrightarrow>
     currentStatusId cols task = Some (effectiveColumn cols task)"
proof -
  assume "truthy (t_statusId task)" and "the (t_statusId task) \<in> ps_id ` set cols"
  then show "currentStatusId cols task = Some (effectiveColumn cols task)"
    by (auto simp: currentStatusId_def effectiveColumn_def groupStatusId_def truthy_iff)
next
  assume a: "\<not> truthy (t_statusId task)" and b: "truthy (matchingStatusId cols task)"
  from b obtain k where k: "matchingStatusId cols task = Some k" "k \<noteq> []"
    by (auto simp: truthy_iff)
  with a matchingStatusId_in[OF k(1)]
  show "currentStatusId cols task = Some (effectiveColumn cols task)"
    by (simp add: currentStatusId_def effectiveColumn_def groupStatusId_def js_or_def)
qed

lemma find_map_replace:
  assumes "List.find P xs = Some z" and "P y"
  shows "List.find P (map (\<lambda>x. if P x then y else x) xs) = Some y"
  using assms by (induction xs) (auto split: if_splits)

lemma map_replace_distinct:
  assumes "distinct (map f xs)" and "List.find (\<lambda>x. f x = k) xs = Some z"
  shows "map (\<lambda>x. if f x = k then z else x) xs = xs"
proof -
  from assms(2) have z: "z \<in> set xs" "f z = k"
    by (auto simp: find_Some_iff)
  have inj: "inj_on f (set xs)" using assms(1) by (simp add: distinct_map)
  have "\<And>x. x \<in> set xs \<Longrightarrow> f x = k \<Longrightarrow> x = z"
    using inj z by (auto dest: inj_onD)
  then show ?thesis by (induction xs) auto
qed

lemma handleDragEnd_move:
  assumes "b_activeType b = Some TaskDrag"
    and "List.find (\<lambda>t. t_id t = tid) (b_tasks b) = Some task"
    and "\<not> (startsWith tid ''column-'' \<and> startsWith over ''column-'')"
    and "targetStatusId (columns b) (b_tasks b) over = Some target"
    and "target \<noteq> []" and "currentStatusId (columns b) task \<noteq> Some target"
  shows "handleDragEnd f \<lparr>ev_active = tid, ev_over = Some over\<rparr> b =
         (handleTaskUpdate (task\<lparr>t_statusId := Some target\<rparr>) (clearDrag b),
          Some (UpdateTaskStatusById tid target task))"
  using assms by (auto simp: handleDragEnd_def Let_def)

lemma handleDragEnd_noop_column:
  assumes "ev_over ev = Some over"
    and "startsWith (ev_active ev) ''column-''" and "startsWith over ''column-''"
    and "stripPrefix ''column-'' (ev_active ev) = stripPrefix ''column-'' over
         \<or> findIndex (\<lambda>c. ps_id c = stripPrefix ''column-'' (ev_active ev)) (columns b) = - 1
         \<or> findIndex (\<lambda>c. ps_id c = stripPrefix ''column-'' over) (columns b) = - 1"
  shows "handleDragEnd f ev b = (clearDrag b, None)"
  using assms by (auto simp: handleDragEnd_def Let_def)

lemma handleDragEnd_noop_task:
  assumes "ev_over ev = Some over"
    and "\<not> (startsWith (ev_active ev) ''column-'' \<and> startsWith over ''column-'')"
    and "b_activeType b = Some TaskDrag"
    and "List.find (\<lambda>t. t_id t = ev_active ev) (b_tasks b) = Some task"
    and "targetStatusId (columns b) (b_tasks b) over = currentStatusId (columns b) task"
  shows "handleDragEnd f ev b = (clearDrag b, None)"
  using assms by (auto simp: handleDragEnd_def Let_def)

text \<open>
  Claim C4. A task is dragged (\<open>tid\<close> names it in the task list) and dropped where the drop
  resolves to a column \<open>target\<close> of the column list, with a non-empty identifier, that is not the
  effective column of the task. Then the handler stores the task with \<open>target\<close> as column
  identifier and issues the request for it, so the state at the time of the request already has
  the new assignment. When the request is fulfilled nothing more happens, and the effective
  column of the stored task is \<open>target\<close>. When it is rejected, the task stored under \<open>tid\<close> is
  the task as it was before the move; with distinct task identifiers the whole task list is as
  before.
\<close>

theorem card_move_is_optimistic_and_reverts_on_failure:
  assumes "b_activeType b = Some TaskDrag"
    and "List.find (\<lambda>t. t_id t = tid) (b_tasks b) = Some task"
    and "\<not> (startsWith tid ''column-'' \<and> startsWith over ''column-'')"
    and "targetStatusId (columns b) (b_tasks b) over = Some target"
    and "target \<noteq> []" and "target \<in> ps_id ` set (columns b)"
    and "target \<noteq> effectiveColumn (columns b) task"
  shows "\<exists>b'. handleDragEnd None \<lparr>ev_active = tid, ev_over = Some over\<rparr> b =
                (b', Some (UpdateTaskStatusById tid target task))
          \<and> b_tasks b' = map (\<lambda>t. if t_id t = tid then task\<lparr>t_statusId := Some target\<rparr> else t) (b_tasks b)
          \<and> List.find (\<lambda>t. t_id t = tid) (b_tasks b') = Some (task\<lparr>t_statusId := Some target\<rparr>)
          \<and> columns b' = columns b
          \<and> effectiveColumn (columns (fulfilled (UpdateTaskStatusById tid target task) b'))
               (task\<lparr>t_statusId := Some target\<rparr>) = target
          \<and> List.find (\<lambda>t. t_id t = tid)
               (b_tasks (rejected (UpdateTaskStatusById tid target task) b')) = Some task
          \<and> columns (rejected (UpdateTaskStatusById tid target task) b') = columns b
          \<and> (distinct (map t_id (b_tasks b)) \<longrightarrow>
               b_tasks (rejected (UpdateTaskStatusById tid target task) b') = b_tasks b)"
proof -
  let ?task' = "task\<lparr>t_statusId := Some target\<rparr>"
  let ?b' = "handleTaskUpdate ?task' (clearDrag b)"
  let ?p = "UpdateTaskStatusById tid target task"
  have id: "t_id task = tid" using assms(2) by (auto simp: find_Some_iff)
  have cur: "currentStatusId (columns b) task \<noteq> Some target"
    using currentStatusId_effective[OF _ assms(5,6)] assms(7) by blast
  have h: "handleDragEnd None \<lparr>ev_active = tid, ev_over = Some over\<rparr> b = (?b', Some ?p)"
    by (rule handleDragEnd_move[OF assms(1-5) cur])
  have t: "b_tasks ?b' = map (\<lambda>t. if t_id t = tid then ?task' else t) (b_tasks b)"
    by (simp add: handleTaskUpdate_def id)
  have f1: "List.find (\<lambda>t. t_id t = tid) (b_tasks ?b') = Some ?task'"
    unfolding t by (rule find_map_replace[OF assms(2)]) (simp add: id)
  have c: "columns ?b' = columns b"
    by (simp add: handleTaskUpdate_def clearDrag_def columns_def baseStatuses_def)
  have e: "effectiveColumn (columns (fulfilled ?p ?b')) ?task' = target"
    using assms(5,6) by (simp add: fulfilled_def c effectiveColumn_def groupStatusId_def)
  have rt: "b_tasks (rejected ?p ?b') = map (\<lambda>t. if t_id t = tid then task else t) (b_tasks ?b')"
    by (simp add: handleTaskUpdate_def id)
  have f2: "List.find (\<lambda>t. t_id t = tid) (b_tasks (rejected ?p ?b')) = Some task"
    unfolding rt by (rule find_map_replace[OF f1]) (simp add: id)
  have c2: "columns (rejected ?p ?b') = columns b"
    by (simp add: handleTaskUpdate_def clearDrag_def columns_def baseStatuses_def)
  have d: "distinct (map t_id (b_tasks b)) \<longrightarrow> b_tasks (rejected ?p ?b') = b_tasks b"
  proof
    assume di: "distinct (map t_id (b_tasks b))"
    have "b_tasks (rejected ?p ?b') = map (\<lambda>t. if t_id t = tid then task else t) (b_tasks b)"
      unfolding rt t by (simp add: id comp_def if_distrib cong: if_cong)
    also have "\<dots> = b_tasks b" by (rule map_replace_distinct[OF di assms(2)])
    finally show "b_tasks (rejected ?p ?b') = b_tasks b" .
  qed
  show ?thesis
    using h t f1 c e f2 c2 d by blast
qed


lemma cardBoard_facts:
  "columns (cardBoard tid) = todoColumns"
  "b_tasks (cardBoard tid) = [todoCard, reviewCard]"
  "\<not> startsWith tid ''column-'' \<Longrightarrow> b_activeType (cardBoard tid) = Some TaskDrag"
  by (simp_all add: cardBoard_def handleDragStart_def mountBoard_def setStatuses_def columns_def
        baseStatuses_def todoColumns_def)

lemma card_facts:
  "t_id todoCard = ''t2''" "t_id reviewCard = ''t1''"
  "effectiveColumn todoColumns todoCard = ''s-todo''"
  "effectiveColumn todoColumns reviewCard = ''s-todo''"
  "currentStatusId todoColumns todoCard = Some ''s-todo''"
  "currentStatusId todoColumns reviewCard = None"
  by (simp_all add: effectiveColumn_def groupStatusId_def currentStatusId_def matchingStatusId_def
        js_or_def first_def todoColumns_def mkStatus_def reviewCard_def todoCard_def mkTask_def)

lemma targetStatusId_droppable:
  "targetStatusId cols tasks (''droppable-'' @ k) = Some k"
  by (simp add: targetStatusId_def startsWith_def stripPrefix_def)

lemma todoColumns_ids: "ps_id ` set todoColumns = {''s-todo'', ''s-prog'', ''s-done''}"
  by (auto simp: todoColumns_def mkStatus_def)

theorem card_move_is_optimistic_and_reverts_on_failure_witness:
  "b_activeType (cardBoard ''t2'') = Some TaskDrag
   \<and> List.find (\<lambda>t. t_id t = ''t2'') (b_tasks (cardBoard ''t2'')) = Some todoCard
   \<and> targetStatusId (columns (cardBoard ''t2'')) (b_tasks (cardBoard ''t2'')) ''droppable-s-done''
       = Some ''s-done''
   \<and> ''s-done'' \<in> ps_id ` set (columns (cardBoard ''t2''))
   \<and> effectiveColumn (columns (cardBoard ''t2'')) todoCard = ''s-todo''
   \<and> snd (handleDragEnd None (dropOn ''t2'' ''s-done'') (cardBoard ''t2'')) =
       Some (UpdateTaskStatusById ''t2'' ''s-done'' todoCard)
   \<and> b_tasks (fst (handleDragEnd None (dropOn ''t2'' ''s-done'') (cardBoard ''t2''))) =
       [todoCard\<lparr>t_statusId := Some ''s-done''\<rparr>, reviewCard]
   \<and> effectiveColumn todoColumns (todoCard\<lparr>t_statusId := Some ''s-done''\<rparr>) = ''s-done''
   \<and> b_tasks (rejected (UpdateTaskStatusById ''t2'' ''s-done'' todoCard)
                (fst (handleDragEnd None (dropOn ''t2'' ''s-done'') (cardBoard ''t2'')))) =
       [todoCard, reviewCard]"
proof -
  have a: "b_activeType (cardBoard ''t2'') = Some TaskDrag"
    by (rule cardBoard_facts(3)) (simp add: startsWith_def)
  have f: "List.find (\<lambda>t. t_id t = ''t2'') (b_tasks (cardBoard ''t2'')) = Some todoCard"
    by (simp add: cardBoard_facts card_facts)
  have n: "\<not> (startsWith ''t2'' ''column-'' \<and> startsWith ''droppable-s-done'' ''column-'')"
    by (simp add: startsWith_def)
  have t: "targetStatusId (columns (cardBoard ''t2'')) (b_tasks (cardBoard ''t2''))
             ''droppable-s-done'' = Some ''s-done''"
    using targetStatusId_droppable[of _ _ "''s-done''"] by simp
  have m: "''s-done'' \<in> ps_id ` set (columns (cardBoard ''t2''))"
    by (simp add: cardBoard_facts todoColumns_ids)
  have e: "''s-done'' \<noteq> effectiveColumn (columns (cardBoard ''t2'')) todoCard"
    by (simp add: cardBoard_facts card_facts)
  have d: "distinct (map t_id (b_tasks (cardBoard ''t2'')))"
    by (simp add: cardBoard_facts card_facts)
  from card_move_is_optimistic_and_reverts_on_failure[OF a f n t _ m e]
  obtain b' where b': "handleDragEnd None \<lparr>ev_active = ''t2'', ev_over = Some ''droppable-s-done''\<rparr>
                         (cardBoard ''t2'') = (b', Some (UpdateTaskStatusById ''t2'' ''s-done'' todoCard))"
    and tb: "b_tasks b' = map (\<lambda>t. if t_id t = ''t2'' then todoCard\<lparr>t_statusId := Some ''s-done''\<rparr> else t)
                            (b_tasks (cardBoard ''t2''))"
    and ef: "effectiveColumn (columns (fulfilled (UpdateTaskStatusById ''t2'' ''s-done'' todoCard) b'))
               (todoCard\<lparr>t_statusId := Some ''s-done''\<rparr>) = ''s-done''"
    and cb: "columns b' = columns (cardBoard ''t2'')"
    and rj: "distinct (map t_id (b_tasks (cardBoard ''t2''))) \<longrightarrow>
             b_tasks (rejected (UpdateTaskStatusById ''t2'' ''s-done'' todoCard) b') =
             b_tasks (cardBoard ''t2'')"
    by auto
  have ev: "dropOn ''t2'' ''s-done'' = \<lparr>ev_active = ''t2'', ev_over = Some ''droppable-s-done''\<rparr>"
    by (simp add: dropOn_def)
  show ?thesis
    using a f t m e b' tb ef cb rj d
    by (simp add: ev cardBoard_facts card_facts fulfilled_def)
qed

text \<open>
  Claim C7, as stated, fails for a card whose column is resolved by the fallback to the first
  column. The card \<open>t1\<close> has no column identifier and the legacy status IN_REVIEW; the columns
  have the slugs todo, in_progress, done, so the card is shown in the first column. Dropping
  it on that column is not a no-op: the handler resolves the current column to null, stores the
  card with the column identifier of the first column and issues a request.
\<close>

theorem drop_on_fallback_column_is_persisted_counterexample:
  "effectiveColumn (columns (cardBoard ''t1'')) reviewCard = ''s-todo''
   \<and> handleDragEnd None (dropOn ''t1'' ''s-todo'') (cardBoard ''t1'') =
       (handleTaskUpdate (reviewCard\<lparr>t_statusId := Some ''s-todo''\<rparr>) (clearDrag (cardBoard ''t1'')),
        Some (UpdateTaskStatusById ''t1'' ''s-todo'' reviewCard))
   \<and> b_tasks (fst (handleDragEnd None (dropOn ''t1'' ''s-todo'') (cardBoard ''t1''))) =
       [todoCard, reviewCard\<lparr>t_statusId := Some ''s-todo''\<rparr>]
   \<and> b_tasks (fst (handleDragEnd None (dropOn ''t1'' ''s-todo'') (cardBoard ''t1''))) \<noteq>
       b_tasks (cardBoard ''t1'')"
proof -
  have a: "b_activeType (cardBoard ''t1'') = Some TaskDrag"
    by (rule cardBoard_facts(3)) (simp add: startsWith_def)
  have f: "List.find (\<lambda>t. t_id t = ''t1'') (b_tasks (cardBoard ''t1'')) = Some reviewCard"
    by (simp add: cardBoard_facts card_facts)
  have n: "\<not> (startsWith ''t1'' ''column-'' \<and> startsWith ''droppable-s-todo'' ''column-'')"
    by (simp add: startsWith_def)
  have t: "targetStatusId (columns (cardBoard ''t1'')) (b_tasks (cardBoard ''t1''))
             ''droppable-s-todo'' = Some ''s-todo''"
    using targetStatusId_droppable[of _ _ "''s-todo''"] by simp
  have c: "currentStatusId (columns (cardBoard ''t1'')) reviewCard \<noteq> Some ''s-todo''"
    by (simp add: cardBoard_facts card_facts)
  have h: "handleDragEnd None (dropOn ''t1'' ''s-todo'') (cardBoard ''t1'') =
       (handleTaskUpdate (reviewCard\<lparr>t_statusId := Some ''s-todo''\<rparr>) (clearDrag (cardBoard ''t1'')),
        Some (UpdateTaskStatusById ''t1'' ''s-todo'' reviewCard))"
    using handleDragEnd_move[OF a f n t _ c] by (simp add: dropOn_def)
  have "reviewCard\<lparr>t_statusId := Some ''s-todo''\<rparr> \<noteq> reviewCard"
    by (simp add: reviewCard_def mkTask_def)
  then show ?thesis
    by (simp add: h handleTaskUpdate_def cardBoard_facts card_facts)
qed

text \<open>
  Claim C7, amended. A column drag whose source and destination are the same column, or whose
  source or destination identifier is not in the column list, and a task drop whose target is
  the current column of the task as the handler resolves it (direct identifier, else legacy slug
  lookup, without the fallback to the first column) only reset the gesture: column order, local
  order and tasks are unchanged and no request is issued. The current column so resolved is the
  effective column whenever the direct identifier names a column of the list or the slug lookup
  finds a column.
\<close>

theorem rejected_gestures_change_nothing:
  "(ev_over ev = Some over
      \<and> startsWith (ev_active ev) ''column-'' \<and> startsWith over ''column-''
      \<and> (stripPrefix ''column-'' (ev_active ev) = stripPrefix ''column-'' over
          \<or> findIndex (\<lambda>c. ps_id c = stripPrefix ''column-'' (ev_active ev)) (columns b) = - 1
          \<or> findIndex (\<lambda>c. ps_id c = stripPrefix ''column-'' over) (columns b) = - 1)
      \<longrightarrow> handleDragEnd f ev b = (clearDrag b, None))
   \<and> (ev_over ev = Some over
      \<and> \<not> (startsWith (ev_active ev) ''column-'' \<and> startsWith over ''column-'')
      \<and> b_activeType b = Some TaskDrag
      \<and> List.find (\<lambda>t. t_id t = ev_active ev) (b_tasks b) = Some task
      \<and> targetStatusId (columns b) (b_tasks b) over = currentStatusId (columns b) task
      \<longrightarrow> handleDragEnd f ev b = (clearDrag b, None))
   \<and> columns (clearDrag b) = columns b \<and> b_tasks (clearDrag b) = b_tasks b
   \<and> b_statuses (clearDrag b) = b_statuses b \<and> b_localStatuses (clearDrag b) = b_localStatuses b
   \<and> (truthy (t_statusId task) \<and> the (t_statusId task) \<in> ps_id ` set (columns b)
      \<longrightarrow> currentStatusId (columns b) task = Some (effectiveColumn (columns b) task))
   \<and> (\<not> truthy (t_statusId task) \<and> truthy (matchingStatusId (columns b) task)
      \<longrightarrow> currentStatusId (columns b) task = Some (effectiveColumn (columns b) task))"
  using handleDragEnd_noop_column[of ev over b f] handleDragEnd_noop_task[of ev over b task f]
    currentStatusId_resolved[of task "columns b"]
  by (simp add: columns_clearDrag clearDrag_fields)

theorem rejected_gestures_change_nothing_witness:
  "handleDragEnd None \<lparr>ev_active = ''column-A'', ev_over = Some ''column-A''\<rparr> abcdBoard =
     (clearDrag abcdBoard, None)
   \<and> findIndex (\<lambda>c. ps_id c = ''Z'') (columns abcdBoard) = - 1
   \<and> handleDragEnd None \<lparr>ev_active = ''column-A'', ev_over = Some ''column-Z''\<rparr> abcdBoard =
     (clearDrag abcdBoard, None)
   \<and> b_activeType (cardBoard ''t2'') = Some TaskDrag
   \<and> List.find (\<lambda>t. t_id t = ''t2'') (b_tasks (cardBoard ''t2'')) = Some todoCard
   \<and> targetStatusId (columns (cardBoard ''t2'')) (b_tasks (cardBoard ''t2'')) ''droppable-s-todo'' =
       currentStatusId (columns (cardBoard ''t2'')) todoCard
   \<and> handleDragEnd None (dropOn ''t2'' ''s-todo'') (cardBoard ''t2'') =
       (clearDrag (cardBoard ''t2''), None)
   \<and> truthy (t_statusId todoCard)
   \<and> currentStatusId (columns (cardBoard ''t2'')) todoCard =
       Some (effectiveColumn (columns (cardBoard ''t2'')) todoCard)"
proof -
  have z: "findIndex (\<lambda>c. ps_id c = ''Z'') (columns abcdBoard) = - 1"
    by (simp add: columns_abcdBoard abcdColumns_def mkStatus_def)
  have 1: "handleDragEnd None \<lparr>ev_active = ''column-A'', ev_over = Some ''column-A''\<rparr> abcdBoard =
           (clearDrag abcdBoard, None)"
    using rejected_gestures_change_nothing[of
            "\<lparr>ev_active = ''column-A'', ev_over = Some ''column-A''\<rparr>" "''column-A''" abcdBoard None]
    by (simp add: startsWith_def)
  have 2: "handleDragEnd None \<lparr>ev_active = ''column-A'', ev_over = Some ''column-Z''\<rparr> abcdBoard =
           (clearDrag abcdBoard, None)"
    using rejected_gestures_change_nothing[of
            "\<lparr>ev_active = ''column-A'', ev_over = Some ''column-Z''\<rparr>" "''column-Z''" abcdBoard None] z
    by (simp add: startsWith_def stripPrefix_def)
  have a: "b_activeType (cardBoard ''t2'') = Some TaskDrag"
    by (rule cardBoard_facts(3)) (simp add: startsWith_def)
  have f: "List.find (\<lambda>t. t_id t = ''t2'') (b_tasks (cardBoard ''t2'')) = Some todoCard"
    by (simp add: cardBoard_facts card_facts)
  have t: "targetStatusId (columns (cardBoard ''t2'')) (b_tasks (cardBoard ''t2''))
             ''droppable-s-todo'' = currentStatusId (columns (cardBoard ''t2'')) todoCard"
    using targetStatusId_droppable[of _ _ "''s-todo''"] by (simp add: cardBoard_facts card_facts)
  have s: "truthy (t_statusId todoCard) \<and>
           the (t_statusId todoCard) \<in> ps_id ` set (columns (cardBoard ''t2''))"
    by (simp add: todoCard_def mkTask_def cardBoard_facts todoColumns_ids)
  note r = rejected_gestures_change_nothing[of "dropOn ''t2'' ''s-todo''" "''droppable-s-todo''"
             "cardBoard ''t2''" None todoCard]
  have 3: "handleDragEnd None (dropOn ''t2'' ''s-todo'') (cardBoard ''t2'') =
           (clearDrag (cardBoard ''t2''), None)"
    using r a f t by (simp add: dropOn_def startsWith_def)
  have 4: "currentStatusId (columns (cardBoard ''t2'')) todoCard =
           Some (effectiveColumn (columns (cardBoard ''t2'')) todoCard)"
    using r s by blast
  show ?thesis
    using z 1 2 a f t 3 s 4 by blast
qed

end
